theory Spec2Isabelle
  imports Main
begin

section \<open>Strings\<close>

text \<open>
  A JavaScript string is a sequence of code units. The model keeps the code units
  below 256 (ISO 8859-1), one \<^typ>\<open>char\<close> each. On that range
  \<^verbatim>\<open>String.prototype.toLowerCase\<close> maps the letters A-Z and the accented capitals
  0xC0-0xDE (0xD7, the multiplication sign, apart) to the code unit 32 above, which is the
  same code unit with bit 5 set, and \<^verbatim>\<open>String.prototype.trim\<close> removes TAB, LF, VT,
  FF, CR, SPACE and NBSP from both ends.
\<close>

definition isWhiteSpace :: "char \<Rightarrow> bool" where
  "isWhiteSpace c = (of_char c \<in> {9, 10, 11, 12, 13, 32, 160 :: nat})"

definition isUpper :: "char \<Rightarrow> bool" where
  "isUpper c = (let n = (of_char c :: nat) in
     (65 \<le> n \<and> n \<le> 90) \<or> (192 \<le> n \<and> n \<le> 222 \<and> n \<noteq> 215))"

definition toLower :: "char \<Rightarrow> char" where
  "toLower c = (if isUpper c
     then Char (digit0 c) (digit1 c) (digit2 c) (digit3 c) (digit4 c) True (digit6 c) (digit7 c)
     else c)"

definition toLowerCase :: "string \<Rightarrow> string" where
  "toLowerCase s = map toLower s"

definition trimStart :: "string \<Rightarrow> string" where
  "trimStart s = dropWhile isWhiteSpace s"

definition trimEnd :: "string \<Rightarrow> string" where
  "trimEnd s = rev (dropWhile isWhiteSpace (rev s))"

definition trim :: "string \<Rightarrow> string" where
  "trim s = trimEnd (trimStart s)"

text \<open>
  A value that may be \<^verbatim>\<open>undefined\<close> is an option. \<open>templ\<close> is what a template
  literal prints for it, \<open>strOr\<close> is \<^verbatim>\<open>a || b\<close> on strings (the empty string and
  \<^verbatim>\<open>undefined\<close> are falsy).
\<close>

definition templ :: "string option \<Rightarrow> string" where
  "templ v = (case v of None \<Rightarrow> ''undefined'' | Some s \<Rightarrow> s)"

definition strOr :: "string option \<Rightarrow> string \<Rightarrow> string" where
  "strOr a b = (case a of None \<Rightarrow> b | Some s \<Rightarrow> if s \<noteq> [] then s else b)"

section \<open>Connection keys\<close>

text \<open>
  \<^verbatim>\<open>generateConnectionKey(name, company = '')\<close> returns
  \<^verbatim>\<open>`${name}|${company}`.toLowerCase().trim()\<close>. The default value of the second
  parameter replaces \<^verbatim>\<open>undefined\<close> only.
\<close>

definition generateConnectionKey :: "string option \<Rightarrow> string option \<Rightarrow> string" where
  "generateConnectionKey name company =
     trim (toLowerCase (templ name @ ''|'' @ (case company of None \<Rightarrow> [] | Some c \<Rightarrow> c)))"

text \<open>
  The key as the specification words it: each component trimmed and lowercased on its
  own, then joined.
\<close>

definition specKey :: "string \<Rightarrow> string \<Rightarrow> string" where
  "specKey n c = toLowerCase (trim n) @ ''|'' @ toLowerCase (trim c)"

section \<open>Contact records and the candidate filter\<close>

text \<open>
  A contact row is an object with string-valued properties: a map from property names
  to strings, \<open>None\<close> where the property is absent.
\<close>

type_synonym connection = "string \<rightharpoonup> string"

definition emailOf :: "connection \<Rightarrow> string" where
  "emailOf conn = strOr (conn ''Email'') (strOr (conn ''Email Address'') [])"

definition missingEmail :: "connection \<Rightarrow> bool" where
  "missingEmail conn = (let email = emailOf conn in
     email = [] \<or> trim email = [] \<or> email = ''N/A'')"

definition totalMissing :: "connection list \<Rightarrow> nat" where
  "totalMissing connections = length (filter missingEmail connections)"

definition lookupName :: "connection \<Rightarrow> string" where
  "lookupName conn =
     strOr (conn ''Full Name'') (templ (conn ''First Name'') @ '' '' @ templ (conn ''Last Name''))"

text \<open>
  The key of a row, as both \<^verbatim>\<open>filterProcessedConnections\<close> and the loop of
  \<^verbatim>\<open>processConnections\<close> compute it.
\<close>

definition connectionKey :: "connection \<Rightarrow> string" where
  "connectionKey conn = generateConnectionKey (conn ''Full Name'') (conn ''Company'')"

section \<open>JavaScript values in the progress file\<close>

text \<open>
  What \<^verbatim>\<open>JSON.parse\<close> returns. Numbers are kept as integers: the program never computes
  with a number it read back. An object is its list of properties; \<^verbatim>\<open>JSON.parse\<close>
  keeps one value per property name.
\<close>

datatype json = JNull | JBool bool | JNum int | JStr string | JArr "json list"
  | JObj "(string \<times> json) list"

datatype js_error = TypeError | SyntaxError | IOError

definition truthy :: "json \<Rightarrow> bool" where
  "truthy j = (case j of JNull \<Rightarrow> False | JBool b \<Rightarrow> b | JNum n \<Rightarrow> n \<noteq> 0
     | JStr s \<Rightarrow> s \<noteq> [] | JArr _ \<Rightarrow> True | JObj _ \<Rightarrow> True)"

text \<open>\<^verbatim>\<open>a || b\<close>, where \<open>a\<close> is the result of a property read.\<close>

definition orElse :: "json option \<Rightarrow> json \<Rightarrow> json" where
  "orElse a b = (case a of None \<Rightarrow> b | Some j \<Rightarrow> if truthy j then j else b)"

text \<open>
  Reading a property throws a TypeError on \<^verbatim>\<open>null\<close>; a value that is not an object
  has none of the properties the program reads.
\<close>

definition getProp :: "json \<Rightarrow> string \<Rightarrow> js_error + json option" where
  "getProp j k = (case j of JNull \<Rightarrow> Inl TypeError | JObj kvs \<Rightarrow> Inr (map_of kvs k)
     | _ \<Rightarrow> Inr None)"

text \<open>
  Iteration, as the spread syntax and the \<^verbatim>\<open>Set\<close> constructor do it: an array gives its
  elements, a string its characters, anything else a TypeError.
\<close>

definition iterate :: "json \<Rightarrow> js_error + json list" where
  "iterate j = (case j of JArr xs \<Rightarrow> Inr xs | JStr s \<Rightarrow> Inr (map (\<lambda>c. JStr [c]) s)
     | _ \<Rightarrow> Inl TypeError)"

text \<open>
  Conversion to a primitive value, as \<^verbatim>\<open>new Date(v)\<close> does it for an object: it asks
  \<^verbatim>\<open>valueOf\<close>, then \<^verbatim>\<open>toString\<close>, and throws a TypeError when neither gives a
  primitive. A parsed object has no callable property of its own, so the conversion ends
  with the inherited \<^verbatim>\<open>toString\<close> unless a property named \<open>toString\<close> hides it; an
  array joins the strings of its elements, and the string of an element is found the same
  way.
\<close>

fun hasPrimitive :: "json \<Rightarrow> bool" where
  "hasPrimitive (JObj kvs) = (map_of kvs ''toString'' = None)"
| "hasPrimitive (JArr xs) = list_all hasPrimitive xs"
| "hasPrimitive j = True"

text \<open>
  A \<^verbatim>\<open>Set\<close> is the list of its elements in insertion order. Two primitive values are
  the same element when they are equal; every parsed array or object is an element of
  its own.
\<close>

type_synonym jsset = "json list"

definition primitive :: "json \<Rightarrow> bool" where
  "primitive j = (case j of JArr _ \<Rightarrow> False | JObj _ \<Rightarrow> False | _ \<Rightarrow> True)"

definition setInsert :: "jsset \<Rightarrow> json \<Rightarrow> jsset" where
  "setInsert s x = (if primitive x \<and> x \<in> set s then s else s @ [x])"

definition newSet :: "json \<Rightarrow> js_error + jsset" where
  "newSet j = (case iterate j of Inl e \<Rightarrow> Inl e | Inr xs \<Rightarrow> Inr (foldl setInsert [] xs))"

definition setHas :: "jsset \<Rightarrow> string \<Rightarrow> bool" where
  "setHas s k = (JStr k \<in> set s)"

definition setAdd :: "jsset \<Rightarrow> string \<Rightarrow> jsset" where
  "setAdd s k = setInsert s (JStr k)"

definition validSet :: "jsset \<Rightarrow> bool" where
  "validSet s = distinct (filter primitive s)"

definition filterProcessedConnections :: "connection list \<Rightarrow> jsset \<Rightarrow> connection list" where
  "filterProcessedConnections connections names =
     filter (\<lambda>conn. \<not> setHas names (connectionKey conn)) connections"

section \<open>The progress store\<close>

record progress =
  processedNames :: jsset
  results :: json
  startTime :: json
  lastUpdate :: json

definition emptyProgress :: progress where
  "emptyProgress = \<lparr>processedNames = [], results = JArr [], startTime = JNull, lastUpdate = JNull\<rparr>"

text \<open>
  The progress file: absent, present but not readable, readable but not JSON, or holding
  the text of a JSON value. \<^verbatim>\<open>JSON.parse (JSON.stringify v)\<close> is \<open>v\<close> for the values
  of \<^typ>\<open>json\<close>, so the file is modelled by the value it parses to.
\<close>

datatype progress_file = Missing | Unreadable | Garbled | Stored json

text \<open>The body of the \<^verbatim>\<open>try\<close> block of \<^verbatim>\<open>loadProgress\<close>.\<close>

definition readProgress :: "progress_file \<Rightarrow> js_error + progress option" where
  "readProgress f = (case f of
       Missing \<Rightarrow> Inr None
     | Unreadable \<Rightarrow> Inl IOError
     | Garbled \<Rightarrow> Inl SyntaxError
     | Stored p \<Rightarrow>
        (case getProp p ''processedNames'' of Inl e \<Rightarrow> Inl e | Inr pn \<Rightarrow>
        (case newSet (orElse pn (JArr [])) of Inl e \<Rightarrow> Inl e | Inr names \<Rightarrow>
        (case getProp p ''results'' of Inl e \<Rightarrow> Inl e | Inr rs \<Rightarrow>
        (case getProp p ''startTime'' of Inl e \<Rightarrow> Inl e | Inr st \<Rightarrow>
        (case getProp p ''lastUpdate'' of Inl e \<Rightarrow> Inl e | Inr lu \<Rightarrow>
           Inr (Some \<lparr>processedNames = names, results = orElse rs (JArr []),
                      startTime = orElse st JNull, lastUpdate = orElse lu JNull\<rparr>)))))))"

text \<open>
  \<^verbatim>\<open>loadProgress\<close>: the \<^verbatim>\<open>catch\<close> clause logs the error and falls through to the
  empty state. \<open>Inl\<close> would be an exception leaving the function.
\<close>

definition loadProgress :: "progress_file \<Rightarrow> js_error + progress" where
  "loadProgress f = (case readProgress f of
       Inl e \<Rightarrow> Inr emptyProgress
     | Inr None \<Rightarrow> Inr emptyProgress
     | Inr (Some p) \<Rightarrow> Inr p)"

definition progressJson :: "jsset \<Rightarrow> json \<Rightarrow> json \<Rightarrow> string \<Rightarrow> json" where
  "progressJson names rs st now = JObj
     [(''processedNames'', JArr names), (''results'', rs), (''startTime'', st),
      (''lastUpdate'', JStr now), (''totalProcessed'', JNum (int (length names)))]"

section \<open>The lookup provider\<close>

record LookupResult =
  name :: string
  company :: "string option"
  position :: "string option"
  query :: string
  response :: string
  source :: string
  email :: string
  confidence :: string
  searchResults :: string

text \<open>
  The answer of the search service as \<^verbatim>\<open>performWebSearch\<close> reads it: the properties
  \<open>Abstract\<close>, \<open>RelatedTopics\<close> (each topic with \<open>Text\<close> and \<open>FirstURL\<close>) and
  \<open>Answer\<close> of \<^verbatim>\<open>response.data\<close>, \<open>None\<close> where a property is absent.
\<close>

record topic =
  Text :: "string option"
  FirstURL :: "string option"

record ddg =
  Abstract :: "string option"
  RelatedTopics :: "topic list option"
  Answer :: "string option"

text \<open>
  What the \<^verbatim>\<open>try\<close> block of \<^verbatim>\<open>performWebSearch\<close> meets: an exception (the request
  fails or times out, or the answer cannot be read), or the data of the answer.
\<close>

datatype web_attempt = WebFailed string | WebData ddg

text \<open>
  What the \<^verbatim>\<open>try\<close> block of \<^verbatim>\<open>searchEmail\<close> meets after the web search: an
  exception with its message (from the language-model call or from reading its answer), or
  the text of the answer.
\<close>

datatype attempt = Threw string | Answered string

text \<open>
  The environment of a run: the configuration read by the constructor, and the answers of
  the outside world (what the search service and the language model answer at the \<open>k\<close>-th
  lookup, whether the \<open>k\<close>-th write to disk succeeds, the time at the \<open>k\<close>-th reading of
  the clock). The language model is asked with a prompt made of the query, the search
  results and the name, company and position; its answer is a function of those. The three
  extractors \<^verbatim>\<open>extractSource\<close>, \<^verbatim>\<open>extractEmail\<close> and \<^verbatim>\<open>extractConfidence\<close>
  (regular-expression matches on the answer text) are parameters as well: no property below
  depends on what they return. Every theorem holds for every environment.
\<close>

record env =
  batchSize :: int
  delay :: int
  webSearch :: "nat \<Rightarrow> string \<Rightarrow> web_attempt"
  chat :: "nat \<Rightarrow> string \<Rightarrow> string option \<Rightarrow> string option \<Rightarrow> string \<Rightarrow> attempt"
  writeOk :: "nat \<Rightarrow> bool"
  clock :: "nat \<Rightarrow> string"
  extractSource :: "string \<Rightarrow> string"
  extractEmail :: "string \<Rightarrow> string"
  extractConfidence :: "string \<Rightarrow> string"

text \<open>
  \<open>given v\<close> is the string of a value that is truthy, and the empty string otherwise;
  \<open>decimal\<close> prints a number, \<open>nl\<close> is the line feed and \<open>dq\<close> the double quote.
\<close>

definition nl :: string where
  "nl = [CHR 0x0A]"

definition dq :: string where
  "dq = [CHR 0x22]"

fun decimal :: "nat \<Rightarrow> string" where
  "decimal n = (if n < 10 then [''0123456789'' ! n]
     else decimal (n div 10) @ [''0123456789'' ! (n mod 10)])"

definition buildQuery :: "string \<Rightarrow> string option \<Rightarrow> string option \<Rightarrow> string" where
  "buildQuery nm co po =
     ''Find business email for '' @ nm
     @ (case co of Some c \<Rightarrow> if c \<noteq> [] then '' who works at '' @ c else [] | None \<Rightarrow> [])
     @ (case po of Some p \<Rightarrow> if p \<noteq> [] then '' as '' @ p else [] | None \<Rightarrow> [])"

text \<open>
  \<^verbatim>\<open>alternativeWebSearch\<close>: the context given to the language model when the web search
  gave nothing. \<^verbatim>\<open>company.toLowerCase().replace(/\s/g, '')\<close> is \<open>squash\<close>.
\<close>

definition squash :: "string \<Rightarrow> string" where
  "squash c = filter (\<lambda>ch. \<not> isWhiteSpace ch) (toLowerCase c)"

definition alternativeWebSearch :: "string \<Rightarrow> string option \<Rightarrow> string option \<Rightarrow> string" where
  "alternativeWebSearch nm co po =
     ''Search context for: '' @ nm
     @ (case co of
          Some c \<Rightarrow>
            if c \<noteq> []
            then nl @ ''Company: '' @ c
                 @ nl @ ''Possible email patterns for '' @ c @ '': firstname.lastname@''
                 @ squash c @ ''.com, firstname@'' @ squash c @ ''.com''
            else []
        | None \<Rightarrow> [])
     @ (case po of Some p \<Rightarrow> if p \<noteq> [] then nl @ ''Position: '' @ p else [] | None \<Rightarrow> [])
     @ nl @ ''Note: Direct web search was not available. AI should use professional email patterns and company information to make educated guesses.''"

text \<open>
  \<^verbatim>\<open>performWebSearch\<close>, for the \<open>k\<close>-th lookup. The \<^verbatim>\<open>catch\<close> clause and a result of
  fewer than 50 characters both lead to \<^verbatim>\<open>alternativeWebSearch\<close>.
\<close>

definition searchQuery :: "string \<Rightarrow> string option \<Rightarrow> string option \<Rightarrow> string" where
  "searchQuery nm co po =
     dq @ nm @ dq @ '' email''
     @ (case co of Some c \<Rightarrow> if c \<noteq> [] then '' '' @ dq @ c @ dq else [] | None \<Rightarrow> [])
     @ (case po of Some p \<Rightarrow> if p \<noteq> [] then '' '' @ dq @ p @ dq else [] | None \<Rightarrow> [])"

definition topicLines :: "nat \<times> topic \<Rightarrow> string" where
  "topicLines it = (case Text (snd it) of
       Some t \<Rightarrow>
         if t \<noteq> []
         then decimal (fst it + 1) @ ''. '' @ t @ nl
              @ (case FirstURL (snd it) of
                   Some u \<Rightarrow> if u \<noteq> [] then ''   Source: '' @ u @ nl else []
                 | None \<Rightarrow> [])
         else []
     | None \<Rightarrow> [])"

definition webResults :: "ddg \<Rightarrow> string" where
  "webResults d =
     (case Abstract d of Some a \<Rightarrow> if a \<noteq> [] then ''Abstract: '' @ a @ nl else [] | None \<Rightarrow> [])
     @ (case RelatedTopics d of
          Some ts \<Rightarrow>
            if ts \<noteq> []
            then nl @ ''Related Information:'' @ nl @ concat (map topicLines (enumerate 0 (take 5 ts)))
            else []
        | None \<Rightarrow> [])
     @ (case Answer d of Some a \<Rightarrow> if a \<noteq> [] then nl @ ''Direct Answer: '' @ a @ nl else [] | None \<Rightarrow> [])"

definition performWebSearch :: "env \<Rightarrow> nat \<Rightarrow> string \<Rightarrow> string option \<Rightarrow> string option \<Rightarrow> string" where
  "performWebSearch e k nm co po = (case webSearch e k (searchQuery nm co po) of
       WebFailed message \<Rightarrow> alternativeWebSearch nm co po
     | WebData d \<Rightarrow>
         (let found = webResults d in
          if length (trim found) < 50 then alternativeWebSearch nm co po
          else if found \<noteq> [] then found else ''No specific web search results found.''))"

text \<open>
  The object \<^verbatim>\<open>searchEmail\<close> returns, from the search results and what its \<^verbatim>\<open>try\<close>
  block met after them.
\<close>

definition lookupResult :: "env \<Rightarrow> string \<Rightarrow> string option \<Rightarrow> string option \<Rightarrow> string \<Rightarrow> attempt \<Rightarrow> LookupResult" where
  "lookupResult e nm co po found a = (case a of
       Answered responseText \<Rightarrow>
         \<lparr>name = nm, company = co, position = po, query = buildQuery nm co po,
          response = responseText, source = extractSource e responseText,
          email = extractEmail e responseText, confidence = extractConfidence e responseText,
          searchResults = take 500 found @ ''...''\<rparr>
     | Threw message \<Rightarrow>
         \<lparr>name = nm, company = co, position = po, query = buildQuery nm co po,
          response = message, source = [], email = [], confidence = ''LOW'',
          searchResults = []\<rparr>)"

section \<open>Files, events and the world\<close>

datatype csv_line = Header | Row LookupResult

datatype event =
    Lookup string "string option" "string option"
  | SinkWrite bool LookupResult
  | ProgressSave jsset json json
  | Sleep int

text \<open>
  The state outside the program: the two files, the calls made so far in order, and how
  often the lookup provider, the disk and the clock have been used.
\<close>

record world =
  progressFile :: progress_file
  outputFile :: "csv_line list option"
  trace :: "event list"
  lookups :: nat
  writes :: nat
  clockReads :: nat

definition searchEmail :: "env \<Rightarrow> string \<Rightarrow> string option \<Rightarrow> string option \<Rightarrow> world \<Rightarrow> LookupResult \<times> world" where
  "searchEmail e nm co po w =
     (let found = performWebSearch e (lookups w) nm co po
      in (lookupResult e nm co po found (chat e (lookups w) nm co po found),
          w\<lparr>lookups := Suc (lookups w), trace := trace w @ [Lookup nm co po]\<rparr>))"

text \<open>
  \<^verbatim>\<open>saveProgress\<close>: one reading of the clock and one write. A write that fails is logged
  and leaves the file as it was.
\<close>

definition saveProgress :: "env \<Rightarrow> jsset \<Rightarrow> json \<Rightarrow> json \<Rightarrow> world \<Rightarrow> world" where
  "saveProgress e names rs st w =
     w\<lparr>progressFile :=
         (if writeOk e (writes w)
          then Stored (progressJson names rs st (clock e (clockReads w)))
          else progressFile w),
       clockReads := Suc (clockReads w),
       writes := Suc (writes w),
       trace := trace w @ [ProgressSave names rs st]\<rparr>"

text \<open>
  \<^verbatim>\<open>saveResultIncremental\<close>: a csv writer with \<^verbatim>\<open>append: !isFirstResult\<close>. Without
  \<^verbatim>\<open>append\<close> the writer replaces the file by the header and the row; with it, it adds the
  row at the end, creating the file when there is none.
\<close>

definition saveResultIncremental :: "env \<Rightarrow> LookupResult \<Rightarrow> bool \<Rightarrow> world \<Rightarrow> world" where
  "saveResultIncremental e r isFirst w =
     w\<lparr>outputFile :=
         (if writeOk e (writes w)
          then (if isFirst then Some [Header, Row r]
                else Some ((case outputFile w of None \<Rightarrow> [] | Some ls \<Rightarrow> ls) @ [Row r]))
          else outputFile w),
       writes := Suc (writes w),
       trace := trace w @ [SinkWrite isFirst r]\<rparr>"

definition csvFileExists :: "world \<Rightarrow> bool" where
  "csvFileExists w = (case outputFile w of None \<Rightarrow> False | Some ls \<Rightarrow> ls \<noteq> [])"

definition sleep :: "int \<Rightarrow> world \<Rightarrow> world" where
  "sleep ms w = w\<lparr>trace := trace w @ [Sleep ms]\<rparr>"

section \<open>The batch run\<close>

text \<open>A result object as a JSON value, its properties in the order of the object literal.\<close>

definition optJson :: "string option \<Rightarrow> json" where
  "optJson v = (case v of None \<Rightarrow> JNull | Some s \<Rightarrow> JStr s)"

definition resultJson :: "LookupResult \<Rightarrow> json" where
  "resultJson r = JObj
     [(''name'', JStr (name r)), (''company'', optJson (company r)),
      (''position'', optJson (position r)), (''query'', JStr (query r)),
      (''response'', JStr (response r)), (''source'', JStr (source r)),
      (''email'', JStr (email r)), (''confidence'', JStr (confidence r)),
      (''searchResults'', JStr (searchResults r))]"

text \<open>
  The rows \<^verbatim>\<open>processConnections\<close> will look up: the rows without an email, less the
  rows already processed when resuming from a non-empty set, cut to the sample size when a
  positive one is given.
\<close>

definition selectCandidates :: "connection list \<Rightarrow> int option \<Rightarrow> bool \<Rightarrow> progress \<Rightarrow> connection list" where
  "selectCandidates connections sampleSize resume prog =
     (let missingEmails = filter missingEmail connections;
          remaining = (if resume \<and> processedNames prog \<noteq> []
                       then filterProcessedConnections missingEmails (processedNames prog)
                       else missingEmails)
      in case sampleSize of
           None \<Rightarrow> remaining
         | Some k \<Rightarrow> if k > 0 then take (nat k) remaining else remaining)"

text \<open>What the loop of \<^verbatim>\<open>processConnections\<close> changes.\<close>

record session =
  outside :: world
  names :: jsset
  collected :: "json list"
  currentSession :: "LookupResult list"
  isFirstResult :: bool

text \<open>The body of the inner loop, for the row at \<open>globalIndex\<close>.\<close>

definition processRecord :: "env \<Rightarrow> nat \<Rightarrow> json \<Rightarrow> int \<Rightarrow> connection \<Rightarrow> session \<Rightarrow> session" where
  "processRecord e totalCount st globalIndex conn s =
     (let (result, w1) = searchEmail e (lookupName conn) (conn ''Company'') (conn ''Position'')
                           (outside s);
          current = currentSession s @ [result];
          rs = collected s @ [resultJson result];
          w2 = saveResultIncremental e result (isFirstResult s) w1;
          ns = setAdd (names s) (connectionKey conn);
          w3 = (if length current mod 5 = 0
                   \<or> (length current > 0 \<and> globalIndex = int totalCount - 1)
                then saveProgress e ns (JArr rs) st w2 else w2);
          w4 = (if globalIndex < int totalCount - 1 then sleep (delay e) w3 else w3)
      in \<lparr>outside = w4, names = ns, collected = rs, currentSession = current,
          isFirstResult = False\<rparr>)"

fun processBatch :: "env \<Rightarrow> nat \<Rightarrow> json \<Rightarrow> int \<Rightarrow> connection list \<Rightarrow> session \<Rightarrow> session" where
  "processBatch e totalCount st i [] s = s"
| "processBatch e totalCount st i (conn # batch) s =
     processBatch e totalCount st (i + 1) batch (processRecord e totalCount st i conn s)"

text \<open>\<^verbatim>\<open>Array.prototype.slice\<close>: a negative index counts from the end.\<close>

definition slice :: "'a list \<Rightarrow> int \<Rightarrow> int \<Rightarrow> 'a list" where
  "slice xs start stop =
     (let n = int (length xs);
          lo = (if start < 0 then max (n + start) 0 else min start n);
          hi = (if stop < 0 then max (n + stop) 0 else min stop n)
      in take (nat (hi - lo)) (drop (nat lo) xs))"

text \<open>
  The outer loop, \<^verbatim>\<open>for (let i = 0; i < total; i += this.batchSize)\<close>. With a batch
  size that is not positive it does not end: the value is \<open>None\<close>.
\<close>

partial_function (option) batches :: "env \<Rightarrow> connection list \<Rightarrow> json \<Rightarrow> int \<Rightarrow> session \<Rightarrow> session option" where
  "batches e missingEmails st i s =
     (if i < int (length missingEmails)
      then batches e missingEmails st (i + batchSize e)
             (processBatch e (length missingEmails) st i
                (slice missingEmails i (i + batchSize e)) s)
      else Some s)"

text \<open>
  The log of a resumed run prints \<^verbatim>\<open>new Date(progress.lastUpdate).toLocaleString()\<close>
  when the loaded set is not empty and \<^verbatim>\<open>progress.lastUpdate\<close> is truthy. The date of a
  string or a number may be invalid, which prints as such; the date of a value without a
  primitive is a TypeError, which nothing catches.
\<close>

definition resumeLogThrows :: "bool \<Rightarrow> progress \<Rightarrow> bool" where
  "resumeLogThrows resume prog =
     (resume \<and> processedNames prog \<noteq> [] \<and> truthy (lastUpdate prog)
      \<and> \<not> hasPrimitive (lastUpdate prog))"

text \<open>
  \<^verbatim>\<open>processConnections\<close>. The value is \<open>None\<close> when the run does not end,
  \<open>Some (Inl err)\<close> when an exception leaves it, and otherwise the returned value with
  the world after the run.
\<close>

definition processConnections :: "env \<Rightarrow> connection list \<Rightarrow> int option \<Rightarrow> bool \<Rightarrow> world \<Rightarrow> (js_error + json \<times> world) option" where
  "processConnections e connections sampleSize resume w =
     (case (if resume then loadProgress (progressFile w) else Inr emptyProgress) of
        Inl err \<Rightarrow> Some (Inl err)
      | Inr prog \<Rightarrow>
         (let missingEmails = selectCandidates connections sampleSize resume prog in
          if resumeLogThrows resume prog then Some (Inl TypeError)
          else if length missingEmails = 0 then Some (Inr (results prog, w))
          else
            (case (if resume then iterate (results prog) else Inr []) of
               Inl err \<Rightarrow> Some (Inl err)
             | Inr rs \<Rightarrow>
                (let (st, w1) =
                       (if truthy (startTime prog) then (startTime prog, w)
                        else (JStr (clock e (clockReads w)), w\<lparr>clockReads := Suc (clockReads w)\<rparr>));
                     isFirstSession = (\<not> resume \<or> \<not> csvFileExists w1)
                 in case batches e missingEmails st 0
                           \<lparr>outside = w1, names = processedNames prog, collected = rs,
                            currentSession = [], isFirstResult = isFirstSession\<rparr> of
                      None \<Rightarrow> None
                    | Some s \<Rightarrow>
                        Some (Inr (JArr (collected s),
                                   saveProgress e (names s) (JArr (collected s)) st (outside s)))))))"

section \<open>Reading a run off the trace\<close>

text \<open>
  The call \<^verbatim>\<open>searchEmail\<close> receives for a row, and the object it returns when it is the
  \<open>k\<close>-th lookup.
\<close>

definition lookupEvent :: "connection \<Rightarrow> event" where
  "lookupEvent conn = Lookup (lookupName conn) (conn ''Company'') (conn ''Position'')"

definition answer :: "env \<Rightarrow> nat \<Rightarrow> connection \<Rightarrow> LookupResult" where
  "answer e k conn =
     lookupResult e (lookupName conn) (conn ''Company'') (conn ''Position'')
       (performWebSearch e k (lookupName conn) (conn ''Company'') (conn ''Position''))
       (chat e k (lookupName conn) (conn ''Company'') (conn ''Position'')
          (performWebSearch e k (lookupName conn) (conn ''Company'') (conn ''Position'')))"

fun answers :: "env \<Rightarrow> nat \<Rightarrow> connection list \<Rightarrow> LookupResult list" where
  "answers e k [] = []"
| "answers e k (conn # conns) = answer e k conn # answers e (Suc k) conns"

fun isLookup :: "event \<Rightarrow> bool" where
  "isLookup (Lookup nm co po) = True"
| "isLookup ev = False"

fun isSinkWrite :: "event \<Rightarrow> bool" where
  "isSinkWrite (SinkWrite h r) = True"
| "isSinkWrite ev = False"




text \<open>The progress in memory at the start of a run.\<close>

definition startProgress :: "bool \<Rightarrow> world \<Rightarrow> progress" where
  "startProgress resume w =
     (if resume then (case loadProgress (progressFile w) of Inr p \<Rightarrow> p | Inl err \<Rightarrow> emptyProgress)
      else emptyProgress)"

text \<open>
  The start time of a run (\<^verbatim>\<open>progress.startTime || new Date().toISOString()\<close>), the
  world once it is known, and the session with which the loop starts.
\<close>

definition runStartTime :: "env \<Rightarrow> progress \<Rightarrow> world \<Rightarrow> json" where
  "runStartTime e prog w =
     (if truthy (startTime prog) then startTime prog else JStr (clock e (clockReads w)))"

definition runStartWorld :: "progress \<Rightarrow> world \<Rightarrow> world" where
  "runStartWorld prog w =
     (if truthy (startTime prog) then w else w\<lparr>clockReads := Suc (clockReads w)\<rparr>)"

definition runStart :: "bool \<Rightarrow> progress \<Rightarrow> json list \<Rightarrow> world \<Rightarrow> session" where
  "runStart resume prog prior w =
     \<lparr>outside = runStartWorld prog w, names = processedNames prog, collected = prior,
      currentSession = [], isFirstResult = (\<not> resume \<or> \<not> csvFileExists w)\<rparr>"


definition runEnd :: "env \<Rightarrow> bool \<Rightarrow> progress \<Rightarrow> json list \<Rightarrow> connection list \<Rightarrow> world \<Rightarrow> session" where
  "runEnd e resume prog prior cs w =
     processBatch e (length cs) (runStartTime e prog w) 0 cs (runStart resume prog prior w)"

definition runWorld :: "env \<Rightarrow> bool \<Rightarrow> progress \<Rightarrow> json list \<Rightarrow> connection list \<Rightarrow> world \<Rightarrow> world" where
  "runWorld e resume prog prior cs w =
     saveProgress e (names (runEnd e resume prog prior cs w))
       (JArr (collected (runEnd e resume prog prior cs w))) (runStartTime e prog w)
       (outside (runEnd e resume prog prior cs w))"

section \<open>A sample environment and sample contacts\<close>

text \<open>
  Concrete inputs on which the theorems below are instantiated: a search service that
  times out at the first lookup, a language model that refuses every second lookup and
  otherwise finds no address, a disk that takes every write, and contacts, of which the
  third has an email address. On the answer \<open>EMAIL: NOT_FOUND\<close> the extractors of the
  source give the empty source, the empty email and the confidence LOW.
\<close>

definition sampleEnv :: env where
  "sampleEnv = \<lparr>batchSize = 5, delay = 2000,
     webSearch = (\<lambda>k q. if k = 0 then WebFailed ''timeout of 10000ms exceeded''
                         else WebData \<lparr>Abstract = Some ''Initech is a software company based in Austin, Texas.'',
                                        RelatedTopics = None, Answer = None\<rparr>),
     chat = (\<lambda>k nm co po found. if even k then Answered ''EMAIL: NOT_FOUND''
                                  else Threw ''429 You exceeded your current quota''),
     writeOk = (\<lambda>k. True),
     clock = (\<lambda>k. ''2024-05-01T10:00:00.000Z''),
     extractSource = (\<lambda>t. []), extractEmail = (\<lambda>t. []),
     extractConfidence = (\<lambda>t. ''LOW'')\<rparr>"

definition freshWorld :: world where
  "freshWorld = \<lparr>progressFile = Missing, outputFile = None, trace = [], lookups = 0,
     writes = 0, clockReads = 0\<rparr>"

definition contactAnn :: connection where
  "contactAnn = [''Full Name'' \<mapsto> ''Ann Lee'', ''Company'' \<mapsto> ''Acme'', ''Email'' \<mapsto> []]"

definition contactBob :: connection where
  "contactBob = [''Full Name'' \<mapsto> ''Bob Ray'', ''Company'' \<mapsto> ''Initech'', ''Email'' \<mapsto> ''N/A'']"

definition contactCat :: connection where
  "contactCat = [''Full Name'' \<mapsto> ''Cat Poe'', ''Company'' \<mapsto> ''Acme'', ''Email'' \<mapsto> ''cat@acme.example'']"

definition contactDan :: connection where
  "contactDan = [''Full Name'' \<mapsto> ''Dan Orr'', ''Company'' \<mapsto> ''Hooli'', ''Email'' \<mapsto> ''  '']"

definition contactEve :: connection where
  "contactEve = [''First Name'' \<mapsto> ''Eve'', ''Last Name'' \<mapsto> ''Kim'', ''Company'' \<mapsto> ''Globex'']"

definition contactFay :: connection where
  "contactFay = [''Full Name'' \<mapsto> ''Fay Wu'', ''Email Address'' \<mapsto> ''N/A'']"

definition contactGus :: connection where
  "contactGus = [''Full Name'' \<mapsto> ''Gus Hall'', ''Company'' \<mapsto> ''Initech'', ''Position'' \<mapsto> ''CTO'']"

definition fourContacts :: "connection list" where
  "fourContacts = [contactAnn, contactBob, contactCat, contactDan]"


text \<open>
  The world that a first run over the four contacts with sample size 1 leaves behind, in
  the fresh world: one row looked up, written with the header, and saved twice.
\<close>

definition afterFirstSample :: world where
  "afterFirstSample =
     \<lparr>progressFile = Stored (progressJson [JStr ''ann lee|acme'']
         (JArr [resultJson (answer sampleEnv 0 contactAnn)])
         (JStr ''2024-05-01T10:00:00.000Z'') ''2024-05-01T10:00:00.000Z''),
      outputFile = Some [Header, Row (answer sampleEnv 0 contactAnn)],
      trace = [Lookup ''Ann Lee'' (Some ''Acme'') None,
               SinkWrite True (answer sampleEnv 0 contactAnn),
               ProgressSave [JStr ''ann lee|acme''] (JArr [resultJson (answer sampleEnv 0 contactAnn)])
                 (JStr ''2024-05-01T10:00:00.000Z''),
               ProgressSave [JStr ''ann lee|acme''] (JArr [resultJson (answer sampleEnv 0 contactAnn)])
                 (JStr ''2024-05-01T10:00:00.000Z'')],
      lookups = 1, writes = 3, clockReads = 3\<rparr>"

section \<open>Properties of the connection key\<close>

lemma isWhiteSpace_toLower: "isWhiteSpace (toLower c) = isWhiteSpace c"
  by (cases c) (simp add: isWhiteSpace_def toLower_def Let_def isUpper_def)

lemma toLower_adds_32: "isUpper c \<Longrightarrow> (of_char (toLower c) :: nat) = of_char c + 32"
  by (cases c) (auto simp add: toLower_def isUpper_def Let_def of_bool_def split: if_splits)

lemma toLower_bar: "toLower (CHR ''|'') = CHR ''|''"
  by (simp add: toLower_def isUpper_def)

lemma not_isWhiteSpace_bar: "\<not> isWhiteSpace (CHR ''|'')"
  by (simp add: isWhiteSpace_def)

lemma dropWhile_toLowerCase:
  "dropWhile isWhiteSpace (toLowerCase s) = toLowerCase (dropWhile isWhiteSpace s)"
  by (induction s) (simp_all add: toLowerCase_def isWhiteSpace_toLower)

lemma rev_toLowerCase: "rev (toLowerCase s) = toLowerCase (rev s)"
  by (simp add: toLowerCase_def rev_map)

lemma trimStart_toLowerCase: "trimStart (toLowerCase s) = toLowerCase (trimStart s)"
  by (simp add: trimStart_def dropWhile_toLowerCase)

lemma trimEnd_toLowerCase: "trimEnd (toLowerCase s) = toLowerCase (trimEnd s)"
  by (simp add: trimEnd_def rev_toLowerCase dropWhile_toLowerCase)

lemma trimStart_bar: "trimStart (a @ CHR ''|'' # b) = trimStart a @ CHR ''|'' # b"
  by (induction a) (simp_all add: trimStart_def not_isWhiteSpace_bar)

lemma trimEnd_bar: "trimEnd (a @ CHR ''|'' # b) = a @ CHR ''|'' # trimEnd b"
  using trimStart_bar [of "rev b" "rev a"] by (simp add: trimEnd_def trimStart_def)

lemma trimEnd_snoc: "trimEnd (ys @ [y]) = (if isWhiteSpace y then trimEnd ys else ys @ [y])"
  by (simp add: trimEnd_def)

lemma trimEnd_id_iff: "trimEnd s = s \<longleftrightarrow> (s = [] \<or> \<not> isWhiteSpace (last s))"
proof (cases s rule: rev_cases)
  case Nil
  then show ?thesis by (simp add: trimEnd_def)
next
  case (snoc ys y)
  have "length (trimEnd ys) \<le> length ys"
    by (simp add: trimEnd_def length_dropWhile_le [of isWhiteSpace "rev ys", simplified])
  then have "trimEnd ys \<noteq> ys @ [y]"
    by auto
  with snoc show ?thesis
    by (simp add: trimEnd_snoc)
qed

lemma trim_of_trimEnd_id:
  assumes "trimEnd s = s"
  shows "trim s = trimStart s"
proof (cases "dropWhile isWhiteSpace s = []")
  case True
  then have "trimStart s = []" by (simp add: trimStart_def)
  then show ?thesis by (simp add: trim_def trimEnd_def)
next
  case False
  then have s: "s \<noteq> []" by auto
  with assms have "\<not> isWhiteSpace (last s)" by (simp add: trimEnd_id_iff)
  moreover have "last (dropWhile isWhiteSpace s) = last s"
    using False s by (metis last_appendR takeWhile_dropWhile_id)
  ultimately have "trimEnd (dropWhile isWhiteSpace s) = dropWhile isWhiteSpace s"
    using False by (simp add: trimEnd_id_iff)
  then show ?thesis by (simp add: trim_def trimStart_def)
qed

lemma generateConnectionKey_eq:
  "generateConnectionKey (Some n) (Some c)
     = toLowerCase (trimStart n) @ ''|'' @ toLowerCase (trimEnd c)"
proof -
  have "toLowerCase (n @ ''|'' @ c) = toLowerCase n @ CHR ''|'' # toLowerCase c"
    by (simp add: toLowerCase_def toLower_bar)
  then show ?thesis
    by (simp add: generateConnectionKey_def templ_def trim_def trimStart_bar trimEnd_bar
        trimStart_toLowerCase trimEnd_toLowerCase)
qed

text \<open>
  Claim C3, as the code has it. The key is the joined string
  \<^verbatim>\<open>name + "|" + company\<close>, lowercased and trimmed once as a whole: white space goes from
  the start of the name and from the end of the company only, so the key is
  \<open>lowercase (trimStart name) + "|" + lowercase (trimEnd company)\<close>. It is the key of the
  specification, \<open>lowercase (trim name) + "|" + lowercase (trim company)\<close>, whenever the name
  does not end and the company does not start with white space.
\<close>

theorem generateConnectionKey_trims_joined_string:
  "generateConnectionKey (Some n) (Some c)
     = toLowerCase (trimStart n) @ ''|'' @ toLowerCase (trimEnd c)
   \<and> (trimEnd n = n \<and> trimStart c = c \<longrightarrow> generateConnectionKey (Some n) (Some c) = specKey n c)"
  by (simp add: generateConnectionKey_eq specKey_def trim_of_trimEnd_id) (simp add: trim_def)

theorem generateConnectionKey_trims_joined_string_witness:
  "trimEnd ''Ann Lee'' = ''Ann Lee'' \<and> trimStart ''Acme Corp'' = ''Acme Corp''
   \<and> generateConnectionKey (Some ''Ann Lee'') (Some ''Acme Corp'') = ''ann lee|acme corp''
   \<and> specKey ''Ann Lee'' ''Acme Corp'' = ''ann lee|acme corp''"
  using generateConnectionKey_trims_joined_string [of "''Ann Lee''" "''Acme Corp''"]
  by (simp add: specKey_def trim_def trimStart_def trimEnd_def toLowerCase_def toLower_def
      isUpper_def isWhiteSpace_def)

text \<open>
  Claim C3 as stated fails: a name that ends with a space keeps the space in the key,
  where the specification's formula removes it.
\<close>

theorem generateConnectionKey_not_componentwise_counterexample:
  "generateConnectionKey (Some ''Ann Lee '') (Some '' Acme'') = ''ann lee | acme''
   \<and> specKey ''Ann Lee '' '' Acme'' = ''ann lee|acme''
   \<and> generateConnectionKey (Some ''Ann Lee '') (Some '' Acme'') \<noteq> specKey ''Ann Lee '' '' Acme''"
  by (simp add: generateConnectionKey_def specKey_def templ_def trim_def trimStart_def
      trimEnd_def toLowerCase_def toLower_def isUpper_def isWhiteSpace_def)

section \<open>Properties of the candidate filter\<close>

lemma trim_empty_iff: "trim s = [] \<longleftrightarrow> (\<forall>c \<in> set s. isWhiteSpace c)"
proof -
  have "trim s = [] \<longleftrightarrow> (\<forall>c \<in> set (dropWhile isWhiteSpace s). isWhiteSpace c)"
    by (simp add: trim_def trimStart_def trimEnd_def)
  also have "\<dots> \<longleftrightarrow> dropWhile isWhiteSpace s = []"
    by (metis dropWhile_eq_Nil_conv hd_dropWhile list.set_sel(1) set_dropWhileD)
  finally show ?thesis by simp
qed

lemma emailOf_empty_iff:
  "emailOf conn = [] \<longleftrightarrow>
     (conn ''Email'' = None \<or> conn ''Email'' = Some [])
     \<and> (conn ''Email Address'' = None \<or> conn ''Email Address'' = Some [])"
  by (auto simp: emailOf_def strOr_def split: option.splits)

lemma selectCandidates_subset:
  "set (selectCandidates connections sampleSize resume prog) \<subseteq> {c \<in> set connections. missingEmail c}"
  by (auto simp: selectCandidates_def Let_def filterProcessedConnections_def
      split: option.splits dest: in_set_takeD)

text \<open>
  Claim C8. The email of a row is its \<open>Email\<close> property, or its \<open>Email Address\<close>
  property when \<open>Email\<close> is absent or empty. A row is a candidate exactly when that email
  is empty (both properties absent or empty), consists of white space only, or is the
  marker \<open>N/A\<close>. The candidates of a run that neither resumes nor samples are all those
  rows of the input; the candidates of every run are among them; and the total the run
  announces counts them in the whole input, whatever the resume flag and the progress.
\<close>

theorem missingEmail_candidate_set:
  "(missingEmail conn \<longleftrightarrow>
      emailOf conn = [] \<or> (\<forall>c \<in> set (emailOf conn). isWhiteSpace c) \<or> emailOf conn = ''N/A'')
   \<and> (emailOf conn = [] \<longleftrightarrow>
        (conn ''Email'' = None \<or> conn ''Email'' = Some [])
        \<and> (conn ''Email Address'' = None \<or> conn ''Email Address'' = Some []))
   \<and> selectCandidates connections None False prog = filter missingEmail connections
   \<and> set (selectCandidates connections sampleSize resume prog)
        \<subseteq> {c \<in> set connections. missingEmail c}
   \<and> totalMissing connections = length (selectCandidates connections None False prog)"
proof -
  have "missingEmail conn \<longleftrightarrow>
      emailOf conn = [] \<or> (\<forall>c \<in> set (emailOf conn). isWhiteSpace c) \<or> emailOf conn = ''N/A''"
    by (simp add: missingEmail_def Let_def trim_empty_iff)
  moreover have "selectCandidates connections None False prog = filter missingEmail connections"
    by (simp add: selectCandidates_def)
  ultimately show ?thesis
    using emailOf_empty_iff [of conn] selectCandidates_subset [of connections sampleSize resume prog]
    by (simp add: totalMissing_def)
qed

theorem missingEmail_candidate_set_witness:
  "missingEmail contactDan \<and> emailOf contactDan = ''  ''
   \<and> \<not> missingEmail contactCat \<and> emailOf contactCat = ''cat@acme.example''
   \<and> selectCandidates [contactAnn, contactBob, contactCat, contactDan] None False emptyProgress
       = [contactAnn, contactBob, contactDan]
   \<and> totalMissing [contactAnn, contactBob, contactCat, contactDan] = 3"
proof -
  have dan: "emailOf contactDan = ''  ''"
    by (simp add: emailOf_def strOr_def contactDan_def)
  have cat: "emailOf contactCat = ''cat@acme.example''"
    by (simp add: emailOf_def strOr_def contactCat_def)
  have ann: "emailOf contactAnn = []"
    by (simp add: emailOf_def strOr_def contactAnn_def)
  have bob: "emailOf contactBob = ''N/A''"
    by (simp add: emailOf_def strOr_def contactBob_def)
  have ws: "\<forall>c \<in> set (emailOf contactDan). isWhiteSpace c"
    by (simp add: dan isWhiteSpace_def)
  have ncat: "\<not> (\<forall>c \<in> set (emailOf contactCat). isWhiteSpace c)"
    by (simp add: cat isWhiteSpace_def)
  from missingEmail_candidate_set [of contactDan "[contactAnn, contactBob, contactCat, contactDan]" emptyProgress None False]
    missingEmail_candidate_set [of contactCat "[]" emptyProgress None False]
    missingEmail_candidate_set [of contactAnn "[]" emptyProgress None False]
    missingEmail_candidate_set [of contactBob "[]" emptyProgress None False]
  show ?thesis
    using ws ncat by (simp add: ann bob) (simp add: cat dan)
qed

section \<open>Properties of the progress store\<close>

lemma set_setInsert: "set (setInsert s x) = insert x (set s)"
  by (auto simp: setInsert_def)

lemma set_foldl_setInsert: "set (foldl setInsert acc xs) = set acc \<union> set xs"
  by (induction xs arbitrary: acc) (auto simp: set_setInsert)

lemma validSet_Nil: "validSet []"
  by (simp add: validSet_def)

lemma validSet_setInsert: "validSet s \<Longrightarrow> validSet (setInsert s x)"
  by (auto simp: validSet_def setInsert_def)

lemma validSet_foldl_setInsert: "validSet acc \<Longrightarrow> validSet (foldl setInsert acc xs)"
  by (induction xs arbitrary: acc) (auto simp: validSet_setInsert)

lemma foldl_setInsert_valid: "validSet (acc @ xs) \<Longrightarrow> foldl setInsert acc xs = acc @ xs"
proof (induction xs arbitrary: acc)
  case Nil
  then show ?case by simp
next
  case (Cons x xs)
  from Cons.prems have "\<not> (primitive x \<and> x \<in> set acc)"
    by (auto simp: validSet_def)
  then have "setInsert acc x = acc @ [x]"
    by (simp add: setInsert_def)
  with Cons.IH [of "acc @ [x]"] Cons.prems show ?case by simp
qed

lemma newSet_JArr: "newSet (JArr ns) = Inr (foldl setInsert [] ns)"
  by (simp add: newSet_def iterate_def)

lemma newSet_valid: "validSet ns \<Longrightarrow> newSet (JArr ns) = Inr ns"
  using foldl_setInsert_valid [of "[]" ns] by (simp add: newSet_JArr)

lemma loadProgress_Inr: "\<exists>p. loadProgress f = Inr p"
  by (simp add: loadProgress_def split: sum.splits option.splits)

lemma loadProgress_not_object:
  "\<forall>kvs. f \<noteq> Stored (JObj kvs) \<Longrightarrow> loadProgress f = Inr emptyProgress"
proof (cases f)
  case (Stored j)
  assume "\<forall>kvs. f \<noteq> Stored (JObj kvs)"
  with Stored show ?thesis
    by (cases j)
      (simp_all add: loadProgress_def readProgress_def getProp_def orElse_def newSet_JArr
        emptyProgress_def)
qed (simp_all add: loadProgress_def readProgress_def)

lemma loadProgress_object:
  "loadProgress (Stored (JObj kvs)) =
     (case newSet (orElse (map_of kvs ''processedNames'') (JArr [])) of
        Inl e \<Rightarrow> Inr emptyProgress
      | Inr ns \<Rightarrow> Inr \<lparr>processedNames = ns, results = orElse (map_of kvs ''results'') (JArr []),
          startTime = orElse (map_of kvs ''startTime'') JNull,
          lastUpdate = orElse (map_of kvs ''lastUpdate'') JNull\<rparr>)"
  by (simp add: loadProgress_def readProgress_def getProp_def split: sum.splits)

text \<open>
  Claim C6, as the code has it. \<^verbatim>\<open>loadProgress\<close> never throws. It returns the empty
  state when there is no stored JSON object to read (the file is missing, unreadable, not
  JSON, or holds \<^verbatim>\<open>null\<close> or another value without properties), and also when the
  stored \<open>processedNames\<close> is a truthy value that cannot be iterated: the TypeError of the
  \<^verbatim>\<open>Set\<close> constructor is caught like a read or parse error, and the stored results and
  timestamps are dropped with it. Otherwise it returns the stored names as a set and the
  stored results and timestamps, each property that is missing or falsy replaced by its
  default (\<open>orElse\<close> is the \<^verbatim>\<open>||\<close> of the source).
\<close>

theorem loadProgress_fails_soft:
  "(\<exists>p. loadProgress f = Inr p)
   \<and> ((\<forall>kvs. f \<noteq> Stored (JObj kvs)) \<longrightarrow> loadProgress f = Inr emptyProgress)
   \<and> (\<forall>kvs err. f = Stored (JObj kvs)
         \<and> iterate (orElse (map_of kvs ''processedNames'') (JArr [])) = Inl err
        \<longrightarrow> loadProgress f = Inr emptyProgress)
   \<and> (\<forall>kvs xs. f = Stored (JObj kvs)
         \<and> iterate (orElse (map_of kvs ''processedNames'') (JArr [])) = Inr xs
        \<longrightarrow> (\<exists>p. loadProgress f = Inr p
               \<and> set (processedNames p) = set xs \<and> validSet (processedNames p)
               \<and> results p = orElse (map_of kvs ''results'') (JArr [])
               \<and> startTime p = orElse (map_of kvs ''startTime'') JNull
               \<and> lastUpdate p = orElse (map_of kvs ''lastUpdate'') JNull))"
proof (intro conjI allI impI)
  show "\<exists>p. loadProgress f = Inr p"
    by (rule loadProgress_Inr)
next
  assume "\<forall>kvs. f \<noteq> Stored (JObj kvs)"
  then show "loadProgress f = Inr emptyProgress"
    by (rule loadProgress_not_object)
next
  fix kvs err
  assume "f = Stored (JObj kvs)
    \<and> iterate (orElse (map_of kvs ''processedNames'') (JArr [])) = Inl err"
  then show "loadProgress f = Inr emptyProgress"
    by (simp add: loadProgress_object newSet_def)
next
  fix kvs xs
  assume "f = Stored (JObj kvs)
    \<and> iterate (orElse (map_of kvs ''processedNames'') (JArr [])) = Inr xs"
  then show "\<exists>p. loadProgress f = Inr p
     \<and> set (processedNames p) = set xs \<and> validSet (processedNames p)
     \<and> results p = orElse (map_of kvs ''results'') (JArr [])
     \<and> startTime p = orElse (map_of kvs ''startTime'') JNull
     \<and> lastUpdate p = orElse (map_of kvs ''lastUpdate'') JNull"
    by (simp add: loadProgress_object newSet_def set_foldl_setInsert validSet_foldl_setInsert
        validSet_Nil)
qed

theorem loadProgress_fails_soft_witness:
  "loadProgress Garbled = Inr emptyProgress
   \<and> (\<exists>p. loadProgress (Stored (JObj
        [(''processedNames'', JArr [JStr ''ann lee|acme'', JStr ''bob ray|initech'',
                                   JStr ''ann lee|acme'']),
         (''results'', JArr [JObj [(''name'', JStr ''Ann Lee'')], JObj [(''name'', JStr ''Bob Ray'')]]),
         (''startTime'', JStr ''2024-05-01T10:00:00.000Z'')])) = Inr p
      \<and> set (processedNames p) = {JStr ''ann lee|acme'', JStr ''bob ray|initech''}
      \<and> validSet (processedNames p)
      \<and> results p = JArr [JObj [(''name'', JStr ''Ann Lee'')], JObj [(''name'', JStr ''Bob Ray'')]]
      \<and> startTime p = JStr ''2024-05-01T10:00:00.000Z''
      \<and> lastUpdate p = JNull)"
  using loadProgress_fails_soft [of Garbled]
    loadProgress_fails_soft [of "Stored (JObj
        [(''processedNames'', JArr [JStr ''ann lee|acme'', JStr ''bob ray|initech'',
                                   JStr ''ann lee|acme'']),
         (''results'', JArr [JObj [(''name'', JStr ''Ann Lee'')], JObj [(''name'', JStr ''Bob Ray'')]]),
         (''startTime'', JStr ''2024-05-01T10:00:00.000Z'')])"]
  by (simp add: orElse_def truthy_def iterate_def insert_commute)

text \<open>
  Claim C6 as stated fails: a progress file that is present, readable and valid JSON, with
  stored results and a start time, is loaded as the empty state when its
  \<open>processedNames\<close> is a number. The stored results are not returned.
\<close>

theorem loadProgress_drops_stored_results_counterexample:
  "loadProgress (Stored (JObj
      [(''processedNames'', JNum 5),
       (''results'', JArr [JObj [(''name'', JStr ''Ann Lee'')]]),
       (''startTime'', JStr ''2024-05-01T10:00:00.000Z'')])) = Inr emptyProgress
   \<and> results emptyProgress \<noteq> JArr [JObj [(''name'', JStr ''Ann Lee'')]]
   \<and> startTime emptyProgress \<noteq> JStr ''2024-05-01T10:00:00.000Z''"
  by (simp add: loadProgress_object orElse_def truthy_def newSet_def iterate_def emptyProgress_def)

text \<open>
  Claim C10. After a \<^verbatim>\<open>saveProgress\<close> whose write succeeds, \<^verbatim>\<open>loadProgress\<close> returns
  the same set of processed keys (the same elements in the same insertion order), the same
  array of results and the same start time. The set is a \<^verbatim>\<open>Set\<close> (no primitive value
  twice), the results are an array, and the start time is \<^verbatim>\<open>null\<close> or a timestamp, which is
  a non-empty string and so a truthy value.
\<close>

theorem saveProgress_loadProgress_roundtrip:
  assumes "validSet ns" and "st = JNull \<or> truthy st" and "writeOk e (writes w)"
  shows "\<exists>p. loadProgress (progressFile (saveProgress e ns (JArr rs) st w)) = Inr p
     \<and> processedNames p = ns \<and> results p = JArr rs \<and> startTime p = st"
  using assms
  by (auto simp: saveProgress_def progressJson_def loadProgress_object orElse_def truthy_def
      newSet_valid)

theorem saveProgress_loadProgress_roundtrip_witness:
  "validSet [JStr ''ann lee|acme'', JStr ''bob ray|initech'']
   \<and> truthy (JStr ''2024-05-01T10:00:00.000Z'')
   \<and> writeOk sampleEnv (writes freshWorld)
   \<and> (\<exists>p. loadProgress (progressFile (saveProgress sampleEnv
              [JStr ''ann lee|acme'', JStr ''bob ray|initech'']
              (JArr [JObj [(''name'', JStr ''Ann Lee'')], JObj [(''name'', JStr ''Bob Ray'')]])
              (JStr ''2024-05-01T10:00:00.000Z'') freshWorld)) = Inr p
        \<and> processedNames p = [JStr ''ann lee|acme'', JStr ''bob ray|initech'']
        \<and> results p = JArr [JObj [(''name'', JStr ''Ann Lee'')], JObj [(''name'', JStr ''Bob Ray'')]]
        \<and> startTime p = JStr ''2024-05-01T10:00:00.000Z'')"
proof -
  have v: "validSet [JStr ''ann lee|acme'', JStr ''bob ray|initech'']"
    by (simp add: validSet_def primitive_def)
  have t: "JStr ''2024-05-01T10:00:00.000Z'' = JNull \<or> truthy (JStr ''2024-05-01T10:00:00.000Z'')"
    by (simp add: truthy_def)
  have o: "writeOk sampleEnv (writes freshWorld)"
    by (simp add: sampleEnv_def)
  from saveProgress_loadProgress_roundtrip [OF v t o] v t o show ?thesis
    by simp
qed

section \<open>The loop of a run\<close>

lemma slice_take_drop:
  assumes "0 \<le> i" "0 < b"
  shows "slice xs i (i + b) = take (nat b) (drop (nat i) xs)"
  using assms by (auto simp: slice_def Let_def min_def max_def)

lemma processBatch_append:
  "processBatch e T st i (as @ bs) s = processBatch e T st (i + int (length as)) bs (processBatch e T st i as s)"
  by (induction as arbitrary: i s) (simp_all add: add.assoc)

lemma processBatch_take_drop:
  assumes "0 \<le> i" "0 < b"
  shows "processBatch e T st (i + b) (drop (nat (i + b)) xs) (processBatch e T st i (take (nat b) (drop (nat i) xs)) s)
       = processBatch e T st i (drop (nat i) xs) s"
proof -
  let ?d = "drop (nat i) xs"
  have d: "drop (nat (i + b)) xs = drop (nat b) ?d"
    using assms by (simp add: nat_add_distrib add.commute)
  show ?thesis
  proof (cases "nat b \<le> length ?d")
    case True
    then have len: "i + int (length (take (nat b) ?d)) = i + b" using assms by simp
    have "processBatch e T st i ?d s
        = processBatch e T st i (take (nat b) ?d @ drop (nat b) ?d) s"
      by (simp only: append_take_drop_id)
    also have "\<dots> = processBatch e T st (i + int (length (take (nat b) ?d))) (drop (nat b) ?d)
                       (processBatch e T st i (take (nat b) ?d) s)"
      by (rule processBatch_append)
    finally show ?thesis
      by (simp only: len d)
  next
    case False
    then show ?thesis using d by simp
  qed
qed

lemma batches_positive:
  assumes "0 < batchSize e"
  shows "0 \<le> i \<Longrightarrow> batches e xs st i s = Some (processBatch e (length xs) st i (drop (nat i) xs) s)"
proof (induction "nat (int (length xs) - i)" arbitrary: i s rule: less_induct)
  case less
  show ?case
  proof (cases "i < int (length xs)")
    case True
    have "nat (int (length xs) - (i + batchSize e)) < nat (int (length xs) - i)"
      using True assms by simp
    moreover have "0 \<le> i + batchSize e" using less.prems assms by simp
    ultimately have "batches e xs st (i + batchSize e) s' = Some (processBatch e (length xs) st (i + batchSize e) (drop (nat (i + batchSize e)) xs) s')" for s'
      using less.hyps by blast
    then show ?thesis
      using True less.prems assms
      by (subst batches.simps) (simp add: slice_take_drop processBatch_take_drop)
  next
    case False
    then show ?thesis
      by (subst batches.simps) simp
  qed
qed

text \<open>With a batch size that is not positive the loop does not end.\<close>

lemma batches_Some_positive:
  assumes "batches e xs st i s = Some y"
  shows "0 < batchSize e \<or> int (length xs) \<le> i"
proof (rule batches.raw_induct
    [where P = "\<lambda>e xs st i s y. 0 < batchSize e \<or> int (length xs) \<le> i", OF _ assms])
  fix b :: "env \<Rightarrow> connection list \<Rightarrow> json \<Rightarrow> int \<Rightarrow> session \<Rightarrow> session option"
  fix e xs st i s y
  assume IH: "\<And>e xs st i s y. b e xs st i s = Some y \<Longrightarrow> 0 < batchSize e \<or> int (length xs) \<le> i"
  assume eq: "(if i < int (length xs)
      then b e xs st (i + batchSize e)
             (processBatch e (length xs) st i (slice xs i (i + batchSize e)) s)
      else Some s) = Some y"
  show "0 < batchSize e \<or> int (length xs) \<le> i"
  proof (cases "i < int (length xs)")
    case True
    with eq have "b e xs st (i + batchSize e)
        (processBatch e (length xs) st i (slice xs i (i + batchSize e)) s) = Some y"
      by simp
    from IH [OF this] True show ?thesis by auto
  next
    case False
    then show ?thesis by simp
  qed
qed

lemma batches_diverges:
  "batchSize e \<le> 0 \<Longrightarrow> i < int (length xs) \<Longrightarrow> batches e xs st i s = None"
  using batches_Some_positive [of e xs st i s] by (cases "batches e xs st i s") auto

section \<open>What one row and one batch do\<close>

lemma processRecord_names: "names (processRecord e T st gi c s) = setAdd (names s) (connectionKey c)"
  by (simp add: processRecord_def searchEmail_def Let_def)

lemma processRecord_collected:
  "collected (processRecord e T st gi c s) = collected s @ [resultJson (answer e (lookups (outside s)) c)]"
  by (simp add: processRecord_def searchEmail_def Let_def answer_def)


lemma processRecord_isFirstResult: "isFirstResult (processRecord e T st gi c s) = False"
  by (simp add: processRecord_def searchEmail_def Let_def)

lemma processRecord_lookups:
  "lookups (outside (processRecord e T st gi c s)) = Suc (lookups (outside s))"
  by (simp add: processRecord_def searchEmail_def Let_def saveResultIncremental_def saveProgress_def sleep_def)

lemma processRecord_trace:
  "trace (outside (processRecord e T st gi c s)) =
     trace (outside s)
     @ [lookupEvent c, SinkWrite (isFirstResult s) (answer e (lookups (outside s)) c)]
     @ (if Suc (length (currentSession s)) mod 5 = 0 \<or> gi = int T - 1
        then [ProgressSave (setAdd (names s) (connectionKey c))
               (JArr (collected s @ [resultJson (answer e (lookups (outside s)) c)])) st]
        else [])
     @ (if gi < int T - 1 then [Sleep (delay e)] else [])"
  by (simp add: processRecord_def searchEmail_def Let_def saveResultIncremental_def saveProgress_def sleep_def answer_def lookupEvent_def)

lemma processRecord_outputFile:
  "outputFile (outside (processRecord e T st gi c s)) =
     (if writeOk e (writes (outside s))
      then (if isFirstResult s then Some [Header, Row (answer e (lookups (outside s)) c)]
            else Some ((case outputFile (outside s) of None \<Rightarrow> [] | Some ls \<Rightarrow> ls)
                        @ [Row (answer e (lookups (outside s)) c)]))
      else outputFile (outside s))"
  by (simp add: processRecord_def searchEmail_def Let_def saveResultIncremental_def saveProgress_def sleep_def answer_def)


lemma processBatch_names:
  "names (processBatch e T st i cs s) = foldl setAdd (names s) (map connectionKey cs)"
  by (induction cs arbitrary: i s) (simp_all add: processRecord_names)

lemma processBatch_collected:
  "collected (processBatch e T st i cs s) = collected s @ map resultJson (answers e (lookups (outside s)) cs)"
  by (induction cs arbitrary: i s) (simp_all add: processRecord_collected processRecord_lookups)


lemma processBatch_isFirstResult:
  "isFirstResult (processBatch e T st i cs s) = (cs = [] \<and> isFirstResult s)"
  by (induction cs arbitrary: i s) (simp_all add: processRecord_isFirstResult)

lemma processBatch_isLookup:
  "filter isLookup (trace (outside (processBatch e T st i cs s))) =
     filter isLookup (trace (outside s)) @ map lookupEvent cs"
  by (induction cs arbitrary: i s) (simp_all add: processRecord_trace lookupEvent_def)

lemma processBatch_isSinkWrite:
  "filter isSinkWrite (trace (outside (processBatch e T st i cs s))) =
     filter isSinkWrite (trace (outside s))
     @ map2 SinkWrite (isFirstResult s # replicate (length cs - 1) False) (answers e (lookups (outside s)) cs)"
proof (induction cs arbitrary: i s)
  case Nil
  then show ?case by simp
next
  case (Cons c cs)
  show ?case
  proof (cases cs)
    case Nil
    then show ?thesis by (simp add: processRecord_trace lookupEvent_def)
  next
    case (Cons d ds)
    then have "replicate (length cs) False = False # replicate (length cs - 1) False"
      by simp
    then show ?thesis
      using Cons.IH [of "i + 1" "processRecord e T st i c s"]
      by (simp add: processRecord_trace lookupEvent_def processRecord_isFirstResult processRecord_lookups)
  qed
qed




lemma processBatch_outputFile:
  assumes "\<forall>k. writeOk e k"
  shows "outputFile (outside (processBatch e T st i cs s)) =
     (if cs = [] then outputFile (outside s)
      else Some ((if isFirstResult s then [Header]
                  else (case outputFile (outside s) of None \<Rightarrow> [] | Some ls \<Rightarrow> ls))
                 @ map Row (answers e (lookups (outside s)) cs)))"
proof (induction cs arbitrary: i s)
  case Nil
  then show ?case by simp
next
  case (Cons c cs)
  show ?case
    using assms
    by (simp add: Cons.IH processRecord_outputFile processRecord_isFirstResult processRecord_lookups)
qed

lemma csvFileExists_runStartWorld: "csvFileExists (runStartWorld p w) = csvFileExists w"
  by (simp add: csvFileExists_def runStartWorld_def)

lemma loadProgress_startProgress: "loadProgress (progressFile w) = Inr (startProgress True w)"
  using loadProgress_Inr [of "progressFile w"] by (auto simp: startProgress_def)

lemma resumeLogThrows_False: "\<not> resumeLogThrows False prog"
  by (simp add: resumeLogThrows_def)

lemma processConnections_log_throws:
  assumes "resumeLogThrows resume (startProgress resume w)"
  shows "processConnections e connections sampleSize resume w = Some (Inl TypeError)"
proof (cases resume)
  case True
  with assms show ?thesis
    by (simp add: processConnections_def loadProgress_startProgress Let_def)
next
  case False
  with assms show ?thesis
    by (simp add: resumeLogThrows_False)
qed

lemma processConnections_run:
  assumes "0 < batchSize e"
    and "selectCandidates connections sampleSize resume (startProgress resume w) = cs"
    and "cs \<noteq> []"
    and "if resume then iterate (results (startProgress resume w)) = Inr prior else prior = []"
    and "\<not> resumeLogThrows resume (startProgress resume w)"
  shows "processConnections e connections sampleSize resume w =
     Some (Inr (JArr (collected (processBatch e (length cs) (runStartTime e (startProgress resume w) w) 0 cs
                        (runStart resume (startProgress resume w) prior w))),
       saveProgress e
         (names (processBatch e (length cs) (runStartTime e (startProgress resume w) w) 0 cs
                        (runStart resume (startProgress resume w) prior w)))
         (JArr (collected (processBatch e (length cs) (runStartTime e (startProgress resume w) w) 0 cs
                        (runStart resume (startProgress resume w) prior w))))
         (runStartTime e (startProgress resume w) w)
         (outside (processBatch e (length cs) (runStartTime e (startProgress resume w) w) 0 cs
                        (runStart resume (startProgress resume w) prior w)))))"
proof (cases resume)
  case True
  with assms show ?thesis
    by (simp add: processConnections_def loadProgress_startProgress Let_def
        batches_positive runStart_def runStartTime_def runStartWorld_def csvFileExists_def)
next
  case False
  with assms show ?thesis
    by (simp add: processConnections_def Let_def startProgress_def resumeLogThrows_False
        batches_positive runStart_def runStartTime_def runStartWorld_def csvFileExists_def)
qed

lemma processConnections_empty:
  assumes "selectCandidates connections sampleSize resume (startProgress resume w) = []"
    and "\<not> resumeLogThrows resume (startProgress resume w)"
  shows "processConnections e connections sampleSize resume w = Some (Inr (results (startProgress resume w), w))"
proof (cases resume)
  case True
  with assms show ?thesis
    by (simp add: processConnections_def loadProgress_startProgress Let_def)
next
  case False
  with assms show ?thesis
    by (simp add: processConnections_def Let_def startProgress_def resumeLogThrows_False)
qed

lemma processConnections_diverges:
  assumes "batchSize e \<le> 0"
    and "selectCandidates connections sampleSize resume (startProgress resume w) \<noteq> []"
    and "if resume then iterate (results (startProgress resume w)) = Inr prior else prior = []"
    and "\<not> resumeLogThrows resume (startProgress resume w)"
  shows "processConnections e connections sampleSize resume w = None"
proof (cases resume)
  case True
  with assms show ?thesis
    by (simp add: processConnections_def loadProgress_startProgress Let_def batches_diverges
        split: prod.splits)
next
  case False
  with assms show ?thesis
    by (simp add: processConnections_def Let_def startProgress_def batches_diverges
        resumeLogThrows_False split: prod.splits)
qed

section \<open>What a run does\<close>

lemma processConnections_returns:
  assumes "0 < batchSize e"
    and "selectCandidates connections sampleSize resume (startProgress resume w) = cs"
    and "cs \<noteq> []"
    and "if resume then iterate (results (startProgress resume w)) = Inr prior else prior = []"
    and "\<not> resumeLogThrows resume (startProgress resume w)"
  shows "processConnections e connections sampleSize resume w =
     Some (Inr (JArr (collected (runEnd e resume (startProgress resume w) prior cs w)),
                runWorld e resume (startProgress resume w) prior cs w))"
  using processConnections_run [OF assms] by (simp add: runEnd_def runWorld_def)

lemma processConnections_throws:
  assumes "selectCandidates connections sampleSize True (startProgress True w) \<noteq> []"
    and "iterate (results (startProgress True w)) = Inl err"
  shows "\<exists>err'. processConnections e connections sampleSize True w = Some (Inl err')"
  using assms by (simp add: processConnections_def loadProgress_startProgress Let_def)

lemma runStartWorld_simps:
  "trace (runStartWorld p w) = trace w"
  "lookups (runStartWorld p w) = lookups w"
  "outputFile (runStartWorld p w) = outputFile w"
  by (simp_all add: runStartWorld_def)

lemma runEnd_collected:
  "collected (runEnd e resume p prior cs w) = prior @ map resultJson (answers e (lookups w) cs)"
  by (simp add: runEnd_def processBatch_collected runStart_def runStartWorld_simps)

lemma runEnd_names:
  "names (runEnd e resume p prior cs w) = foldl setAdd (processedNames p) (map connectionKey cs)"
  by (simp add: runEnd_def processBatch_names runStart_def)

lemma runWorld_trace:
  "trace (runWorld e resume p prior cs w) =
     trace (outside (runEnd e resume p prior cs w))
     @ [ProgressSave (foldl setAdd (processedNames p) (map connectionKey cs))
          (JArr (prior @ map resultJson (answers e (lookups w) cs))) (runStartTime e p w)]"
  by (simp add: runWorld_def saveProgress_def runEnd_collected runEnd_names)

lemma runWorld_isLookup:
  "filter isLookup (trace (runWorld e resume p prior cs w)) = filter isLookup (trace w) @ map lookupEvent cs"
  by (simp add: runWorld_trace) (simp add: runEnd_def processBatch_isLookup runStart_def runStartWorld_simps)

lemma runWorld_isSinkWrite:
  "filter isSinkWrite (trace (runWorld e resume p prior cs w)) =
     filter isSinkWrite (trace w)
     @ map2 SinkWrite ((\<not> resume \<or> \<not> csvFileExists w) # replicate (length cs - 1) False)
         (answers e (lookups w) cs)"
  by (simp add: runWorld_trace) (simp add: runEnd_def processBatch_isSinkWrite runStart_def runStartWorld_simps)


lemma runWorld_outputFile:
  assumes "\<forall>k. writeOk e k" "cs \<noteq> []"
  shows "outputFile (runWorld e resume p prior cs w) =
     Some ((if \<not> resume \<or> \<not> csvFileExists w then [Header]
            else (case outputFile w of None \<Rightarrow> [] | Some ls \<Rightarrow> ls))
           @ map Row (answers e (lookups w) cs))"
  using assms
  by (simp add: runWorld_def saveProgress_def runEnd_def processBatch_outputFile runStart_def runStartWorld_simps)

lemma runWorld_progressFile:
  assumes "\<forall>k. writeOk e k"
  shows "progressFile (runWorld e resume p prior cs w) =
     Stored (progressJson (foldl setAdd (processedNames p) (map connectionKey cs))
       (JArr (prior @ map resultJson (answers e (lookups w) cs))) (runStartTime e p w)
       (clock e (clockReads (outside (runEnd e resume p prior cs w)))))"
  using assms by (simp add: runWorld_def saveProgress_def runEnd_collected runEnd_names)

lemma length_answers: "length (answers e k cs) = length cs"
  by (induction cs arbitrary: k) simp_all

lemma answers_nth: "j < length cs \<Longrightarrow> answers e k cs ! j = answer e (k + j) (cs ! j)"
proof (induction cs arbitrary: k j)
  case Nil
  then show ?case by simp
next
  case (Cons c cs)
  then show ?case by (cases j) simp_all
qed

lemma setHas_setAdd: "setHas (setAdd s k) k' \<longleftrightarrow> k' = k \<or> setHas s k'"
  by (auto simp: setHas_def setAdd_def set_setInsert)

lemma setHas_foldl_setAdd: "setHas (foldl setAdd s ks) k \<longleftrightarrow> setHas s k \<or> k \<in> set ks"
  by (induction ks arbitrary: s) (auto simp: setHas_setAdd)

lemma validSet_foldl_setAdd: "validSet s \<Longrightarrow> validSet (foldl setAdd s ks)"
  by (induction ks arbitrary: s) (simp_all add: setAdd_def validSet_setInsert)

lemma set_foldl_setAdd: "set (foldl setAdd s ks) = set s \<union> JStr ` set ks"
  by (induction ks arbitrary: s) (auto simp: setAdd_def set_setInsert)

lemma foldl_setAdd_fresh:
  "distinct ks \<Longrightarrow> \<forall>k \<in> set ks. \<not> setHas s k \<Longrightarrow> foldl setAdd s ks = s @ map JStr ks"
proof (induction ks arbitrary: s)
  case Nil
  then show ?case by simp
next
  case (Cons k ks)
  from Cons.prems have "setAdd s k = s @ [JStr k]"
    by (simp add: setAdd_def setInsert_def setHas_def)
  moreover from Cons.prems have "\<forall>k' \<in> set ks. \<not> setHas (s @ [JStr k]) k'"
    by (auto simp: setHas_def)
  ultimately show ?case
    using Cons.IH [of "s @ [JStr k]"] Cons.prems by simp
qed

lemma validSet_startProgress: "validSet (processedNames (startProgress resume w))"
proof (cases "resume \<and> (\<exists>kvs. progressFile w = Stored (JObj kvs))")
  case True
  then obtain kvs where "progressFile w = Stored (JObj kvs)" by blast
  with True show ?thesis
    by (simp add: startProgress_def loadProgress_object newSet_def emptyProgress_def
        validSet_Nil validSet_foldl_setInsert split: sum.splits)
next
  case False
  then show ?thesis
    by (auto simp: startProgress_def loadProgress_not_object emptyProgress_def validSet_Nil)
qed

lemma selectCandidates_resume:
  "selectCandidates connections (Some m) True p =
     (if 0 < m then take (nat m) else id)
       (filter (\<lambda>c. \<not> setHas (processedNames p) (connectionKey c)) (filter missingEmail connections))"
proof (cases "processedNames p = []")
  case True
  then show ?thesis
    by (simp add: selectCandidates_def Let_def setHas_def)
next
  case False
  then show ?thesis
    by (simp add: selectCandidates_def Let_def filterProcessedConnections_def)
qed

section \<open>Properties of a run\<close>

lemma selectCandidates_not_processed:
  assumes "c \<in> set (selectCandidates connections sampleSize True p)"
  shows "\<not> setHas (processedNames p) (connectionKey c)"
proof (cases "processedNames p = []")
  case True
  then show ?thesis by (simp add: setHas_def)
next
  case False
  with assms show ?thesis
    by (auto simp: selectCandidates_def Let_def filterProcessedConnections_def
        split: option.splits if_splits dest: in_set_takeD)
qed

lemma startProgress_stored_names:
  assumes "validSet ns" and "progressFile w = Stored (progressJson ns rs st t)"
  shows "processedNames (startProgress True w) = ns"
  using assms
  by (simp add: startProgress_def progressJson_def loadProgress_object orElse_def truthy_def
      newSet_valid)

lemma startProgress_after_run:
  assumes "\<forall>k. writeOk e k"
  shows "processedNames (startProgress True (runWorld e resume (startProgress resume w) prior cs w))
       = foldl setAdd (processedNames (startProgress resume w)) (map connectionKey cs)"
  by (rule startProgress_stored_names [OF _ runWorld_progressFile [OF assms]])
     (simp add: validSet_foldl_setAdd validSet_startProgress)

lemma disjoint_images:
  assumes "\<And>x. x \<in> A \<Longrightarrow> P (f x)" and "\<And>y. y \<in> B \<Longrightarrow> \<not> P (f y)"
  shows "f ` A \<inter> f ` B = {}"
proof (rule ccontr)
  assume "f ` A \<inter> f ` B \<noteq> {}"
  then obtain z where "z \<in> f ` A" "z \<in> f ` B" by auto
  then obtain x y where "x \<in> A" "z = f x" "y \<in> B" "z = f y" by auto
  with assms(1) [of x] assms(2) [of y] show False by simp
qed

lemma lookupResult_Threw:
  "lookupResult e nm co po found (Threw msg) =
     \<lparr>name = nm, company = co, position = po, query = buildQuery nm co po, response = msg,
      source = [], email = [], confidence = ''LOW'', searchResults = []\<rparr>"
  by (simp add: lookupResult_def)











lemma performWebSearch_WebFailed:
  "webSearch e k (searchQuery nm co po) = WebFailed msg \<Longrightarrow>
   performWebSearch e k nm co po = alternativeWebSearch nm co po"
  by (simp add: performWebSearch_def)

lemma searchEmail_Threw:
  "chat e (lookups w) nm co po (performWebSearch e (lookups w) nm co po) = Threw msg \<Longrightarrow>
   fst (searchEmail e nm co po w) =
     \<lparr>name = nm, company = co, position = po, query = buildQuery nm co po, response = msg,
      source = [], email = [], confidence = ''LOW'', searchResults = []\<rparr>"
  by (simp add: searchEmail_def Let_def lookupResult_Threw)

lemma searchEmail_Answered:
  "chat e (lookups w) nm co po (performWebSearch e (lookups w) nm co po) = Answered answered \<Longrightarrow>
   fst (searchEmail e nm co po w) =
     \<lparr>name = nm, company = co, position = po, query = buildQuery nm co po,
      response = answered, source = extractSource e answered, email = extractEmail e answered,
      confidence = extractConfidence e answered,
      searchResults = take 500 (performWebSearch e (lookups w) nm co po) @ ''...''\<rparr>"
  by (simp add: searchEmail_def Let_def lookupResult_def)

text \<open>
  Claim C9. When no row is left to look up (after the email filter, the resume skip and the
  sample limit) and the resume log does not throw
  (\<open>resumeLogThrows\<close>: it throws a TypeError, before any row is looked at, when the run
  resumes from a non-empty set of keys whose stored \<^verbatim>\<open>lastUpdate\<close> is truthy and has no
  primitive), \<^verbatim>\<open>processConnections\<close>
  returns the results of the progress it started from, which is the loaded progress when
  resuming and the empty progress otherwise, and the world is as it was: no lookup, no
  write to the output file, no save.
\<close>

theorem empty_candidate_set_returns_loaded_results:
  assumes "selectCandidates connections sampleSize resume (startProgress resume w) = []"
    and "\<not> resumeLogThrows resume (startProgress resume w)"
  shows "processConnections e connections sampleSize resume w
           = Some (Inr (results (startProgress resume w), w))
     \<and> loadProgress (progressFile w) = Inr (startProgress True w)
     \<and> startProgress False w = emptyProgress"
  using processConnections_empty [OF assms]
  by (simp add: loadProgress_startProgress) (simp add: startProgress_def)


text \<open>
  Claim C5, as the code has it. In a run that looks up at least one row (and whose resume
  log does not throw), the first output row is written with the header exactly when the
  run is not a resume or the output file is missing or empty, and every later row of the
  run is appended without it (\<open>SinkWrite h r\<close> is the call
  \<^verbatim>\<open>saveResultIncremental(r, h)\<close>). When the writes succeed, the output file of a resumed
  run over an existing file is the old file followed by the new rows, and otherwise the
  header followed by the new rows.
\<close>

theorem header_written_with_first_row:
  assumes "0 < batchSize e"
    and "selectCandidates connections sampleSize resume (startProgress resume w) = cs"
    and "cs \<noteq> []"
    and "if resume then iterate (results (startProgress resume w)) = Inr prior else prior = []"
    and "\<not> resumeLogThrows resume (startProgress resume w)"
  shows "\<exists>r w'. processConnections e connections sampleSize resume w = Some (Inr (r, w'))
     \<and> filter isSinkWrite (trace w') =
         filter isSinkWrite (trace w)
         @ map2 SinkWrite ((\<not> resume \<or> \<not> csvFileExists w) # replicate (length cs - 1) False)
             (answers e (lookups w) cs)
     \<and> ((\<forall>k. writeOk e k) \<longrightarrow>
          outputFile w' =
            Some ((if \<not> resume \<or> \<not> csvFileExists w then [Header]
                   else (case outputFile w of None \<Rightarrow> [] | Some ls \<Rightarrow> ls))
                  @ map Row (answers e (lookups w) cs)))"
  using processConnections_returns [OF assms] assms(3)
  by (simp add: runWorld_isSinkWrite runWorld_outputFile)

text \<open>
  Claim C4, as the code has it. When the error reaches the catch clause of
  \<^verbatim>\<open>searchEmail\<close>, which is when the request to the language model throws,
  \<^verbatim>\<open>searchEmail\<close> returns the result with the error's message as response, empty source,
  email and search results, and confidence LOW. An error of the web search does not reach
  it: \<^verbatim>\<open>performWebSearch\<close> returns the context of \<^verbatim>\<open>alternativeWebSearch\<close> in its place,
  and when the language model then answers, the response is that answer and the search
  results are the first 500 characters of the context. Either way a run (with a positive
  batch size, whose resume log does not throw) returns the earlier results followed by one
  result per candidate, in order, each the answer to its own lookup, and writes one output
  row for each: a lookup that throws takes nothing away from the others.
\<close>

theorem error_reaching_catch_is_recorded_and_run_continues:
  assumes "0 < batchSize e"
    and "selectCandidates connections sampleSize resume (startProgress resume w) = cs"
    and "cs \<noteq> []"
    and "if resume then iterate (results (startProgress resume w)) = Inr prior else prior = []"
    and "\<not> resumeLogThrows resume (startProgress resume w)"
  shows "(\<forall>nm co po w0 msg.
            chat e (lookups w0) nm co po (performWebSearch e (lookups w0) nm co po) = Threw msg \<longrightarrow>
            fst (searchEmail e nm co po w0) =
              \<lparr>name = nm, company = co, position = po, query = buildQuery nm co po,
               response = msg, source = [], email = [], confidence = ''LOW'',
               searchResults = []\<rparr>)
     \<and> (\<forall>k nm co po msg.
            webSearch e k (searchQuery nm co po) = WebFailed msg \<longrightarrow>
            performWebSearch e k nm co po = alternativeWebSearch nm co po)
     \<and> (\<forall>nm co po w0 answered.
            chat e (lookups w0) nm co po (performWebSearch e (lookups w0) nm co po)
              = Answered answered \<longrightarrow>
            response (fst (searchEmail e nm co po w0)) = answered
            \<and> searchResults (fst (searchEmail e nm co po w0))
                = take 500 (performWebSearch e (lookups w0) nm co po) @ ''...'')
     \<and> (\<exists>w'. processConnections e connections sampleSize resume w
                = Some (Inr (JArr (prior @ map resultJson (answers e (lookups w) cs)), w'))
           \<and> filter isSinkWrite (trace w') =
               filter isSinkWrite (trace w)
               @ map2 SinkWrite ((\<not> resume \<or> \<not> csvFileExists w) # replicate (length cs - 1) False)
                   (answers e (lookups w) cs))
     \<and> length (answers e (lookups w) cs) = length cs
     \<and> (\<forall>j < length cs. answers e (lookups w) cs ! j = answer e (lookups w + j) (cs ! j))
     \<and> (\<forall>j < length cs. \<forall>msg.
           chat e (lookups w + j) (lookupName (cs ! j)) ((cs ! j) ''Company'')
             ((cs ! j) ''Position'')
             (performWebSearch e (lookups w + j) (lookupName (cs ! j)) ((cs ! j) ''Company'')
                ((cs ! j) ''Position'')) = Threw msg \<longrightarrow>
           answers e (lookups w) cs ! j =
             \<lparr>name = lookupName (cs ! j), company = (cs ! j) ''Company'',
              position = (cs ! j) ''Position'',
              query = buildQuery (lookupName (cs ! j)) ((cs ! j) ''Company'') ((cs ! j) ''Position''),
              response = msg, source = [], email = [], confidence = ''LOW'',
              searchResults = []\<rparr>)"
proof (intro conjI allI impI)
  fix nm co po msg and w0 :: world
  assume "chat e (lookups w0) nm co po (performWebSearch e (lookups w0) nm co po) = Threw msg"
  then show "fst (searchEmail e nm co po w0) =
              \<lparr>name = nm, company = co, position = po, query = buildQuery nm co po,
               response = msg, source = [], email = [], confidence = ''LOW'',
               searchResults = []\<rparr>"
    by (rule searchEmail_Threw)
next
  fix k nm co po msg
  assume "webSearch e k (searchQuery nm co po) = WebFailed msg"
  then show "performWebSearch e k nm co po = alternativeWebSearch nm co po"
    by (rule performWebSearch_WebFailed)
next
  fix nm co po answered and w0 :: world
  assume a: "chat e (lookups w0) nm co po (performWebSearch e (lookups w0) nm co po)
      = Answered answered"
  then show "response (fst (searchEmail e nm co po w0)) = answered"
    by (simp add: searchEmail_Answered)
  from a show "searchResults (fst (searchEmail e nm co po w0))
      = take 500 (performWebSearch e (lookups w0) nm co po) @ ''...''"
    by (simp add: searchEmail_Answered)
next
  show "\<exists>w'. processConnections e connections sampleSize resume w
                = Some (Inr (JArr (prior @ map resultJson (answers e (lookups w) cs)), w'))
           \<and> filter isSinkWrite (trace w') =
               filter isSinkWrite (trace w)
               @ map2 SinkWrite ((\<not> resume \<or> \<not> csvFileExists w) # replicate (length cs - 1) False)
                   (answers e (lookups w) cs)"
    using processConnections_returns [OF assms]
    by (simp add: runEnd_collected runWorld_isSinkWrite)
next
  show "length (answers e (lookups w) cs) = length cs"
    by (rule length_answers)
next
  fix j
  assume "j < length cs"
  then show "answers e (lookups w) cs ! j = answer e (lookups w + j) (cs ! j)"
    by (rule answers_nth)
next
  fix j msg
  assume j: "j < length cs"
    and t: "chat e (lookups w + j) (lookupName (cs ! j)) ((cs ! j) ''Company'')
             ((cs ! j) ''Position'')
             (performWebSearch e (lookups w + j) (lookupName (cs ! j)) ((cs ! j) ''Company'')
                ((cs ! j) ''Position'')) = Threw msg"
  from t show "answers e (lookups w) cs ! j =
             \<lparr>name = lookupName (cs ! j), company = (cs ! j) ''Company'',
              position = (cs ! j) ''Position'',
              query = buildQuery (lookupName (cs ! j)) ((cs ! j) ''Company'') ((cs ! j) ''Position''),
              response = msg, source = [], email = [], confidence = ''LOW'',
              searchResults = []\<rparr>"
    by (simp add: answers_nth [OF j] answer_def lookupResult_Threw)
qed

text \<open>
  Claim C1, as the code has it. A run (with a positive batch size, whose resume log does
  not throw) looks up each of its candidate rows once, in order, and none of them has a key
  of the progress it started from: a key is not looked up again in a later resumed run.
  The run returns the earlier results followed by one result per row, and its last save
  stores them with the set of keys, to which the keys of the rows were added. Rows are not
  compared with each other: when the keys of the rows are pairwise distinct, the saved keys
  are the earlier keys followed by one key per row, so keys and new results correspond one
  to one.
\<close>

theorem one_lookup_per_candidate_row:
  assumes "0 < batchSize e"
    and "selectCandidates connections sampleSize resume (startProgress resume w) = cs"
    and "cs \<noteq> []"
    and "if resume then iterate (results (startProgress resume w)) = Inr prior else prior = []"
    and "\<not> resumeLogThrows resume (startProgress resume w)"
  shows "\<exists>rs ns w'. processConnections e connections sampleSize resume w = Some (Inr (JArr rs, w'))
     \<and> filter isLookup (trace w') = filter isLookup (trace w) @ map lookupEvent cs
     \<and> (\<forall>c \<in> set cs. \<not> setHas (processedNames (startProgress resume w)) (connectionKey c))
     \<and> rs = prior @ map resultJson (answers e (lookups w) cs)
     \<and> last (trace w') = ProgressSave ns (JArr rs) (runStartTime e (startProgress resume w) w)
     \<and> validSet ns
     \<and> set ns = set (processedNames (startProgress resume w)) \<union> JStr ` connectionKey ` set cs
     \<and> (distinct (map connectionKey cs) \<longrightarrow>
          ns = processedNames (startProgress resume w) @ map (\<lambda>c. JStr (connectionKey c)) cs)"
proof -
  let ?p = "startProgress resume w"
  let ?ns = "foldl setAdd (processedNames ?p) (map connectionKey cs)"
  have fresh: "\<forall>c \<in> set cs. \<not> setHas (processedNames ?p) (connectionKey c)"
  proof (cases resume)
    case True
    with assms(2) show ?thesis
      using selectCandidates_not_processed [of _ connections sampleSize ?p] by auto
  next
    case False
    then show ?thesis by (simp add: startProgress_def emptyProgress_def setHas_def)
  qed
  have d: "distinct (map connectionKey cs) \<longrightarrow>
          ?ns = processedNames ?p @ map (\<lambda>c. JStr (connectionKey c)) cs"
    using foldl_setAdd_fresh [of "map connectionKey cs" "processedNames ?p"] fresh
    by (simp add: o_def)
  have v: "validSet ?ns"
    by (simp add: validSet_foldl_setAdd validSet_startProgress)
  have s: "set ?ns = set (processedNames ?p) \<union> JStr ` connectionKey ` set cs"
    by (simp add: set_foldl_setAdd)
  have t: "last (trace (runWorld e resume ?p prior cs w)) =
      ProgressSave ?ns (JArr (prior @ map resultJson (answers e (lookups w) cs)))
        (runStartTime e ?p w)"
    by (simp add: runWorld_trace)
  have l: "filter isLookup (trace (runWorld e resume ?p prior cs w)) =
      filter isLookup (trace w) @ map lookupEvent cs"
    by (rule runWorld_isLookup)
  have r: "processConnections e connections sampleSize resume w =
      Some (Inr (JArr (prior @ map resultJson (answers e (lookups w) cs)),
                 runWorld e resume ?p prior cs w))"
    using processConnections_returns [OF assms] by (simp add: runEnd_collected)
  show ?thesis
    by (intro exI conjI) (rule r, rule l, rule fresh, rule refl, rule t, rule v, rule s, rule d)
qed

text \<open>
  Claim C2. A resumed run with a positive sample limit \<open>m\<close>, whose resume log does not
  throw, looks up the first \<open>m\<close> rows, in input order, among the rows without email whose
  key is not in the loaded set: the skip comes first, the cut second. And when the world it
  starts from was left by an earlier run over the same input with a sample limit \<open>k\<close>,
  whose writes succeeded, no row it looks up has the key of a row of the earlier run.
\<close>

theorem sample_limit_applies_to_remaining_rows:
  assumes "0 < batchSize e" and "0 < m"
    and "iterate (results (startProgress True w)) = Inr prior"
    and "\<not> resumeLogThrows True (startProgress True w)"
  shows "(\<exists>r w'. processConnections e connections (Some m) True w = Some (Inr (r, w'))
       \<and> filter isLookup (trace w') =
           filter isLookup (trace w)
           @ map lookupEvent
               (take (nat m)
                 (filter (\<lambda>c. \<not> setHas (processedNames (startProgress True w)) (connectionKey c))
                   (filter missingEmail connections))))
     \<and> (\<forall>w0 k resume0 r0.
           0 < k \<and> (\<forall>j. writeOk e j)
           \<and> processConnections e connections (Some k) resume0 w0 = Some (Inr (r0, w)) \<longrightarrow>
           connectionKey ` set (selectCandidates connections (Some k) resume0 (startProgress resume0 w0))
           \<inter> connectionKey ` set
               (take (nat m)
                 (filter (\<lambda>c. \<not> setHas (processedNames (startProgress True w)) (connectionKey c))
                   (filter missingEmail connections))) = {})"
proof (intro conjI allI impI)
  let ?cs = "take (nat m)
     (filter (\<lambda>c. \<not> setHas (processedNames (startProgress True w)) (connectionKey c))
       (filter missingEmail connections))"
  have sel: "selectCandidates connections (Some m) True (startProgress True w) = ?cs"
    using assms(2) by (simp add: selectCandidates_resume)
  show "\<exists>r w'. processConnections e connections (Some m) True w = Some (Inr (r, w'))
       \<and> filter isLookup (trace w') = filter isLookup (trace w) @ map lookupEvent ?cs"
  proof (cases "?cs = []")
    case True
    then show ?thesis
      using processConnections_empty [of connections "Some m" True w e] sel assms(4) by simp
  next
    case False
    have "if True then iterate (results (startProgress True w)) = Inr prior else prior = []"
      using assms(3) by simp
    from processConnections_returns [OF assms(1) sel False this assms(4)] show ?thesis
      by (simp add: runWorld_isLookup)
  qed
next
  fix w0 k resume0 r0
  let ?cs = "take (nat m)
     (filter (\<lambda>c. \<not> setHas (processedNames (startProgress True w)) (connectionKey c))
       (filter missingEmail connections))"
  let ?loaded = "startProgress resume0 w0"
  let ?before = "selectCandidates connections (Some k) resume0 ?loaded"
  assume a: "0 < k \<and> (\<forall>j. writeOk e j)
           \<and> processConnections e connections (Some k) resume0 w0 = Some (Inr (r0, w))"
  show "connectionKey ` set ?before \<inter> connectionKey ` set ?cs = {}"
  proof (cases "?before = []")
    case True
    then show ?thesis by simp
  next
    case False
    have "\<exists>prior0. if resume0 then iterate (results ?loaded) = Inr prior0 else prior0 = []"
    proof (cases resume0)
      case True
      show ?thesis
      proof (cases "iterate (results ?loaded)")
        case (Inl err)
        with processConnections_throws [of connections "Some k" w0 err e] False True a
        show ?thesis by simp
      next
        case (Inr xs)
        with True show ?thesis by simp
      qed
    next
      case False
      then show ?thesis by simp
    qed
    then obtain prior0 where
      pr: "if resume0 then iterate (results ?loaded) = Inr prior0 else prior0 = []" by blast
    have lg: "\<not> resumeLogThrows resume0 ?loaded"
    proof
      assume "resumeLogThrows resume0 ?loaded"
      from processConnections_log_throws [OF this, of e connections "Some k"] a
      show False by simp
    qed
    have ret: "processConnections e connections (Some k) resume0 w0 =
        Some (Inr (JArr (collected (runEnd e resume0 ?loaded prior0 ?before w0)),
                   runWorld e resume0 ?loaded prior0 ?before w0))"
      by (rule processConnections_returns [OF assms(1) refl False pr lg])
    from a have ret': "processConnections e connections (Some k) resume0 w0 = Some (Inr (r0, w))"
      by (rule conjunct2 [OF conjunct2])
    from a have ok: "\<forall>j. writeOk e j"
      by (rule conjunct1 [OF conjunct2])
    have w: "runWorld e resume0 ?loaded prior0 ?before w0 = w"
      using ret ret' by (simp only: option.inject sum.inject prod.inject)
    have nm: "processedNames (startProgress True w)
        = foldl setAdd (processedNames ?loaded) (map connectionKey ?before)"
      using startProgress_after_run [OF ok, of resume0 w0 prior0 ?before] by (simp only: w)
    have had: "setHas (processedNames (startProgress True w)) (connectionKey c)"
      if "c \<in> set ?before" for c
      using that by (simp only: nm setHas_foldl_setAdd) simp
    have hadnt: "\<not> setHas (processedNames (startProgress True w)) (connectionKey c)"
      if "c \<in> set ?cs" for c
      using in_set_takeD [OF that] by simp
    show ?thesis
      by (rule disjoint_images [where P = "setHas (processedNames (startProgress True w))"])
        (erule had, erule hadnt)
  qed
qed

section \<open>The sample runs\<close>

lemmas string_ops = trim_def trimStart_def trimEnd_def toLowerCase_def toLower_def isUpper_def
  isWhiteSpace_def templ_def strOr_def

lemma sample_missingEmail:
  "missingEmail contactAnn" "missingEmail contactBob" "\<not> missingEmail contactCat"
  "missingEmail contactDan" "missingEmail contactEve" "missingEmail contactFay"
  "missingEmail contactGus"
  by (simp_all add: missingEmail_def emailOf_def Let_def string_ops contactAnn_def contactBob_def
      contactCat_def contactDan_def contactEve_def contactFay_def contactGus_def)

lemma sample_connectionKey:
  "connectionKey contactAnn = ''ann lee|acme''"
  "connectionKey contactBob = ''bob ray|initech''"
  "connectionKey contactCat = ''cat poe|acme''"
  "connectionKey contactDan = ''dan orr|hooli''"
  "connectionKey contactEve = ''undefined|globex''"
  "connectionKey contactFay = ''fay wu|''"
  "connectionKey contactGus = ''gus hall|initech''"
  by (simp_all add: connectionKey_def generateConnectionKey_def string_ops contactAnn_def
      contactBob_def contactCat_def contactDan_def contactEve_def contactFay_def contactGus_def)

lemma sample_lookupEvent:
  "lookupEvent contactAnn = Lookup ''Ann Lee'' (Some ''Acme'') None"
  "lookupEvent contactBob = Lookup ''Bob Ray'' (Some ''Initech'') None"
  "lookupEvent contactDan = Lookup ''Dan Orr'' (Some ''Hooli'') None"
  "lookupEvent contactEve = Lookup ''Eve Kim'' (Some ''Globex'') None"
  by (simp_all add: lookupEvent_def lookupName_def string_ops contactAnn_def
      contactBob_def contactCat_def contactDan_def contactEve_def contactFay_def contactGus_def)

lemma sample_startProgress_fresh: "startProgress r freshWorld = emptyProgress"
  by (simp add: startProgress_def freshWorld_def loadProgress_def readProgress_def)

lemma sample_select_four:
  "selectCandidates fourContacts None False emptyProgress = [contactAnn, contactBob, contactDan]"
  by (simp add: selectCandidates_def fourContacts_def sample_missingEmail)


lemma sample_batchSize: "0 < batchSize sampleEnv"
  by (simp add: sampleEnv_def)

lemma sample_answer_Bob:
  "answer sampleEnv 1 contactBob =
     \<lparr>name = ''Bob Ray'', company = Some ''Initech'', position = None,
      query = ''Find business email for Bob Ray who works at Initech'',
      response = ''429 You exceeded your current quota'', source = [], email = [],
      confidence = ''LOW'', searchResults = []\<rparr>"
  by (simp add: answer_def lookupResult_def sampleEnv_def lookupName_def strOr_def buildQuery_def
      contactBob_def)

lemma sample_startProgress_after:
  "startProgress True afterFirstSample =
     \<lparr>processedNames = [JStr ''ann lee|acme''],
      results = JArr [resultJson (answer sampleEnv 0 contactAnn)],
      startTime = JStr ''2024-05-01T10:00:00.000Z'',
      lastUpdate = JStr ''2024-05-01T10:00:00.000Z''\<rparr>"
  by (simp add: startProgress_def afterFirstSample_def progressJson_def loadProgress_object
      orElse_def truthy_def newSet_JArr setInsert_def)

lemma sample_log_after: "\<not> resumeLogThrows True (startProgress True afterFirstSample)"
  by (simp add: resumeLogThrows_def sample_startProgress_after)


lemma sample_fresh:
  "trace freshWorld = []" "lookups freshWorld = 0" "outputFile freshWorld = None"
  "\<not> csvFileExists freshWorld"
  by (simp_all add: freshWorld_def csvFileExists_def)

lemma sample_writeOk: "\<forall>k. writeOk sampleEnv k"
  by (simp add: sampleEnv_def)

lemma sample_select_four_fresh:
  "selectCandidates fourContacts None False (startProgress False freshWorld)
     = [contactAnn, contactBob, contactDan]"
  by (simp add: sample_startProgress_fresh sample_select_four)

lemma sample_no_prior:
  "if False then iterate (results (startProgress False freshWorld)) = Inr [] else [] = []"
  by simp

lemma sample_first_run:
  "processConnections sampleEnv fourContacts (Some 1) False freshWorld
     = Some (Inr (JArr [resultJson (answer sampleEnv 0 contactAnn)], afterFirstSample))"
proof -
  have sel: "selectCandidates fourContacts (Some 1) False (startProgress False freshWorld) = [contactAnn]"
    by (simp add: selectCandidates_def fourContacts_def sample_missingEmail)
  have ne: "[contactAnn] \<noteq> []" by simp
  have st: "runStartTime sampleEnv (startProgress False freshWorld) freshWorld
      = JStr ''2024-05-01T10:00:00.000Z''"
    by (simp add: runStartTime_def sample_startProgress_fresh emptyProgress_def truthy_def
        sampleEnv_def)
  have ann: "lookupName contactAnn = ''Ann Lee''" "contactAnn ''Company'' = Some ''Acme''"
    "contactAnn ''Position'' = None"
    by (simp_all add: lookupName_def strOr_def contactAnn_def)
  have w: "runWorld sampleEnv False (startProgress False freshWorld) [] [contactAnn] freshWorld
      = afterFirstSample"
    by (simp add: runWorld_def runEnd_def runStartTime_def processRecord_def searchEmail_def
        saveResultIncremental_def saveProgress_def sleep_def runStart_def runStartWorld_def
        Let_def sample_startProgress_fresh emptyProgress_def truthy_def sample_connectionKey
        setAdd_def setInsert_def afterFirstSample_def answer_def ann)
       (simp add: sampleEnv_def freshWorld_def csvFileExists_def)
  from processConnections_returns [OF sample_batchSize sel ne sample_no_prior resumeLogThrows_False] show ?thesis
    by (simp add: w runEnd_collected sample_fresh)
qed

lemma sample_after:
  "trace afterFirstSample \<noteq> []" "lookups afterFirstSample = 1"
  "outputFile afterFirstSample = Some [Header, Row (answer sampleEnv 0 contactAnn)]"
  "csvFileExists afterFirstSample"
  "filter isSinkWrite (trace afterFirstSample) = [SinkWrite True (answer sampleEnv 0 contactAnn)]"
  by (simp_all add: afterFirstSample_def csvFileExists_def)

lemma sample_select_four_resumed:
  "selectCandidates fourContacts None True (startProgress True afterFirstSample)
     = [contactBob, contactDan]"
  by (simp add: selectCandidates_def fourContacts_def sample_missingEmail sample_startProgress_after
      filterProcessedConnections_def setHas_def sample_connectionKey)

lemma sample_prior:
  "if True then iterate (results (startProgress True afterFirstSample))
       = Inr [resultJson (answer sampleEnv 0 contactAnn)]
   else [resultJson (answer sampleEnv 0 contactAnn)] = []"
  by (simp add: sample_startProgress_after iterate_def)

theorem empty_candidate_set_returns_loaded_results_witness:
  "selectCandidates [contactAnn, contactCat] None True (startProgress True afterFirstSample) = []
   \<and> processConnections sampleEnv [contactAnn, contactCat] None True afterFirstSample
       = Some (Inr (JArr [resultJson (answer sampleEnv 0 contactAnn)], afterFirstSample))"
proof -
  have sel: "selectCandidates [contactAnn, contactCat] None True (startProgress True afterFirstSample) = []"
    by (simp add: selectCandidates_def sample_startProgress_after sample_missingEmail
        filterProcessedConnections_def setHas_def sample_connectionKey)
  from empty_candidate_set_returns_loaded_results [OF sel sample_log_after, of sampleEnv] sel show ?thesis
    by (simp add: sample_startProgress_after)
qed




theorem header_written_with_first_row_witness:
  "(0 < batchSize sampleEnv
   \<and> selectCandidates fourContacts None False (startProgress False freshWorld)
       = [contactAnn, contactBob, contactDan]
   \<and> (\<exists>r w'. processConnections sampleEnv fourContacts None False freshWorld = Some (Inr (r, w'))
        \<and> filter isSinkWrite (trace w') =
            [SinkWrite True (answer sampleEnv 0 contactAnn),
             SinkWrite False (answer sampleEnv 1 contactBob),
             SinkWrite False (answer sampleEnv 2 contactDan)]
        \<and> outputFile w' =
            Some [Header, Row (answer sampleEnv 0 contactAnn), Row (answer sampleEnv 1 contactBob),
                  Row (answer sampleEnv 2 contactDan)]))
   \<and> (\<exists>r w'. processConnections sampleEnv fourContacts None True afterFirstSample = Some (Inr (r, w'))
        \<and> filter isSinkWrite (trace w') =
            [SinkWrite True (answer sampleEnv 0 contactAnn),
             SinkWrite False (answer sampleEnv 1 contactBob),
             SinkWrite False (answer sampleEnv 2 contactDan)]
        \<and> outputFile w' =
            Some [Header, Row (answer sampleEnv 0 contactAnn), Row (answer sampleEnv 1 contactBob),
                  Row (answer sampleEnv 2 contactDan)])"
proof -
  have fresh: "0 < batchSize sampleEnv
   \<and> selectCandidates fourContacts None False (startProgress False freshWorld)
       = [contactAnn, contactBob, contactDan]
   \<and> (\<exists>r w'. processConnections sampleEnv fourContacts None False freshWorld = Some (Inr (r, w'))
        \<and> filter isSinkWrite (trace w') =
            [SinkWrite True (answer sampleEnv 0 contactAnn),
             SinkWrite False (answer sampleEnv 1 contactBob),
             SinkWrite False (answer sampleEnv 2 contactDan)]
        \<and> outputFile w' =
            Some [Header, Row (answer sampleEnv 0 contactAnn), Row (answer sampleEnv 1 contactBob),
                  Row (answer sampleEnv 2 contactDan)])"
  proof -
    have ne: "[contactAnn, contactBob, contactDan] \<noteq> []" by simp
    from header_written_with_first_row [OF sample_batchSize sample_select_four_fresh ne sample_no_prior resumeLogThrows_False]
    obtain r w' where
      r: "processConnections sampleEnv fourContacts None False freshWorld = Some (Inr (r, w'))"
      and s: "filter isSinkWrite (trace w') =
           filter isSinkWrite (trace freshWorld)
           @ map2 SinkWrite ((\<not> False \<or> \<not> csvFileExists freshWorld)
                 # replicate (length [contactAnn, contactBob, contactDan] - 1) False)
               (answers sampleEnv (lookups freshWorld) [contactAnn, contactBob, contactDan])"
      and f: "(\<forall>k. writeOk sampleEnv k) \<longrightarrow>
            outputFile w' =
              Some ((if \<not> False \<or> \<not> csvFileExists freshWorld then [Header]
                     else (case outputFile freshWorld of None \<Rightarrow> [] | Some ls \<Rightarrow> ls))
                    @ map Row (answers sampleEnv (lookups freshWorld) [contactAnn, contactBob, contactDan]))"
      by blast
    from s have "filter isSinkWrite (trace w') =
              [SinkWrite True (answer sampleEnv 0 contactAnn),
               SinkWrite False (answer sampleEnv 1 contactBob),
               SinkWrite False (answer sampleEnv 2 contactDan)]"
      by (simp add: sample_fresh numeral_2_eq_2)
    moreover from f sample_writeOk have "outputFile w' =
              Some [Header, Row (answer sampleEnv 0 contactAnn), Row (answer sampleEnv 1 contactBob),
                    Row (answer sampleEnv 2 contactDan)]"
      by (simp add: sample_fresh numeral_2_eq_2)
    ultimately show ?thesis
      using sample_batchSize sample_select_four_fresh r by auto
  qed
  have resumed: "(\<exists>r w'. processConnections sampleEnv fourContacts None True afterFirstSample = Some (Inr (r, w'))
        \<and> filter isSinkWrite (trace w') =
            [SinkWrite True (answer sampleEnv 0 contactAnn),
             SinkWrite False (answer sampleEnv 1 contactBob),
             SinkWrite False (answer sampleEnv 2 contactDan)]
        \<and> outputFile w' =
            Some [Header, Row (answer sampleEnv 0 contactAnn), Row (answer sampleEnv 1 contactBob),
                  Row (answer sampleEnv 2 contactDan)])"
  proof -
    have ne: "[contactBob, contactDan] \<noteq> []" by simp
    from header_written_with_first_row [OF sample_batchSize sample_select_four_resumed ne sample_prior sample_log_after]
    obtain r w' where
      r: "processConnections sampleEnv fourContacts None True afterFirstSample = Some (Inr (r, w'))"
      and s: "filter isSinkWrite (trace w') =
           filter isSinkWrite (trace afterFirstSample)
           @ map2 SinkWrite ((\<not> True \<or> \<not> csvFileExists afterFirstSample)
                 # replicate (length [contactBob, contactDan] - 1) False)
               (answers sampleEnv (lookups afterFirstSample) [contactBob, contactDan])"
      and f: "(\<forall>k. writeOk sampleEnv k) \<longrightarrow>
            outputFile w' =
              Some ((if \<not> True \<or> \<not> csvFileExists afterFirstSample then [Header]
                     else (case outputFile afterFirstSample of None \<Rightarrow> [] | Some ls \<Rightarrow> ls))
                    @ map Row (answers sampleEnv (lookups afterFirstSample) [contactBob, contactDan]))"
      by blast
    from s have "filter isSinkWrite (trace w') =
              [SinkWrite True (answer sampleEnv 0 contactAnn),
               SinkWrite False (answer sampleEnv 1 contactBob),
               SinkWrite False (answer sampleEnv 2 contactDan)]"
      by (simp add: sample_after numeral_2_eq_2)
    moreover from f sample_writeOk have "outputFile w' =
              Some [Header, Row (answer sampleEnv 0 contactAnn), Row (answer sampleEnv 1 contactBob),
                    Row (answer sampleEnv 2 contactDan)]"
      by (simp add: sample_after numeral_2_eq_2)
    ultimately show ?thesis
      using r by auto
  qed
  from fresh resumed show ?thesis by (rule conjI)
qed

text \<open>
  Claim C5 as stated fails: a run that is not a resume but finds no row without email
  returns before it writes anything, so no header is written and the output file stays
  missing.
\<close>

theorem header_not_written_by_empty_run_counterexample:
  "processConnections sampleEnv [contactCat] None False freshWorld = Some (Inr (JArr [], freshWorld))
   \<and> outputFile freshWorld = None \<and> trace freshWorld = []"
proof -
  have "selectCandidates [contactCat] None False (startProgress False freshWorld) = []"
    by (simp add: selectCandidates_def sample_missingEmail)
  from processConnections_empty [OF this resumeLogThrows_False, of sampleEnv] show ?thesis
    by (simp add: sample_startProgress_fresh sample_fresh) (simp add: emptyProgress_def)
qed

theorem error_reaching_catch_is_recorded_and_run_continues_witness:
  "0 < batchSize sampleEnv
   \<and> selectCandidates fourContacts None False (startProgress False freshWorld)
       = [contactAnn, contactBob, contactDan]
   \<and> chat sampleEnv 1 ''Bob Ray'' (Some ''Initech'') None
         (performWebSearch sampleEnv 1 ''Bob Ray'' (Some ''Initech'') None)
       = Threw ''429 You exceeded your current quota''
   \<and> (\<exists>w'. processConnections sampleEnv fourContacts None False freshWorld
         = Some (Inr (JArr [resultJson (answer sampleEnv 0 contactAnn),
                            resultJson (answer sampleEnv 1 contactBob),
                            resultJson (answer sampleEnv 2 contactDan)], w')))
   \<and> answer sampleEnv 1 contactBob =
       \<lparr>name = ''Bob Ray'', company = Some ''Initech'', position = None,
        query = ''Find business email for Bob Ray who works at Initech'',
        response = ''429 You exceeded your current quota'', source = [], email = [],
        confidence = ''LOW'', searchResults = []\<rparr>"
proof -
  have ne: "[contactAnn, contactBob, contactDan] \<noteq> []" by simp
  have thr: "chat sampleEnv 1 ''Bob Ray'' (Some ''Initech'') None
         (performWebSearch sampleEnv 1 ''Bob Ray'' (Some ''Initech'') None)
       = Threw ''429 You exceeded your current quota''"
    by (simp add: sampleEnv_def)
  note run = error_reaching_catch_is_recorded_and_run_continues
         [OF sample_batchSize sample_select_four_fresh ne sample_no_prior resumeLogThrows_False]
  from run obtain w' where
    "processConnections sampleEnv fourContacts None False freshWorld
       = Some (Inr (JArr ([] @ map resultJson
            (answers sampleEnv (lookups freshWorld) [contactAnn, contactBob, contactDan])), w'))"
    by blast
  then have r: "processConnections sampleEnv fourContacts None False freshWorld
         = Some (Inr (JArr [resultJson (answer sampleEnv 0 contactAnn),
                            resultJson (answer sampleEnv 1 contactBob),
                            resultJson (answer sampleEnv 2 contactDan)], w'))"
    by (simp add: sample_fresh numeral_2_eq_2)
  have bob: "lookupName contactBob = ''Bob Ray''" "contactBob ''Company'' = Some ''Initech''"
    "contactBob ''Position'' = None"
    by (simp_all add: lookupName_def strOr_def contactBob_def)
  from run [THEN conjunct2, THEN conjunct2, THEN conjunct2, THEN conjunct2, THEN conjunct2,
      THEN conjunct2, rule_format, of 1
      "''429 You exceeded your current quota''"] thr
  have "answers sampleEnv (lookups freshWorld) [contactAnn, contactBob, contactDan] ! 1 =
       \<lparr>name = ''Bob Ray'', company = Some ''Initech'', position = None,
        query = buildQuery ''Bob Ray'' (Some ''Initech'') None,
        response = ''429 You exceeded your current quota'', source = [], email = [],
        confidence = ''LOW'', searchResults = []\<rparr>"
    by (simp add: sample_fresh bob)
  then have "answer sampleEnv 1 contactBob =
       \<lparr>name = ''Bob Ray'', company = Some ''Initech'', position = None,
        query = ''Find business email for Bob Ray who works at Initech'',
        response = ''429 You exceeded your current quota'', source = [], email = [],
        confidence = ''LOW'', searchResults = []\<rparr>"
    by (simp add: sample_fresh buildQuery_def)
  with r show ?thesis
    using sample_batchSize sample_select_four_fresh thr by auto
qed

text \<open>
  Claim C4 as stated fails: when it is the web search that fails, \<^verbatim>\<open>performWebSearch\<close>
  catches the error and goes on with the context of \<^verbatim>\<open>alternativeWebSearch\<close>, and the
  result is built from the answer of the language model: its response is that answer, not
  the description of the error, and its search results are not empty.
\<close>

theorem web_search_error_is_not_recorded_counterexample:
  "webSearch sampleEnv 0 (searchQuery ''Ann Lee'' (Some ''Acme'') None)
     = WebFailed ''timeout of 10000ms exceeded''
   \<and> response (fst (searchEmail sampleEnv ''Ann Lee'' (Some ''Acme'') None freshWorld))
       = ''EMAIL: NOT_FOUND''
   \<and> searchResults (fst (searchEmail sampleEnv ''Ann Lee'' (Some ''Acme'') None freshWorld))
       = take 500 (alternativeWebSearch ''Ann Lee'' (Some ''Acme'') None) @ ''...''
   \<and> searchResults (fst (searchEmail sampleEnv ''Ann Lee'' (Some ''Acme'') None freshWorld)) \<noteq> []"
  by (simp add: searchEmail_def Let_def performWebSearch_def lookupResult_def sample_fresh)
     (simp add: sampleEnv_def)

theorem one_lookup_per_candidate_row_witness:
  "0 < batchSize sampleEnv
   \<and> selectCandidates fourContacts None False (startProgress False freshWorld)
       = [contactAnn, contactBob, contactDan]
   \<and> distinct (map connectionKey [contactAnn, contactBob, contactDan])
   \<and> (\<exists>rs w'. processConnections sampleEnv fourContacts None False freshWorld = Some (Inr (JArr rs, w'))
        \<and> filter isLookup (trace w') =
            [Lookup ''Ann Lee'' (Some ''Acme'') None, Lookup ''Bob Ray'' (Some ''Initech'') None,
             Lookup ''Dan Orr'' (Some ''Hooli'') None]
        \<and> rs = [resultJson (answer sampleEnv 0 contactAnn), resultJson (answer sampleEnv 1 contactBob),
                 resultJson (answer sampleEnv 2 contactDan)]
        \<and> last (trace w') =
            ProgressSave [JStr ''ann lee|acme'', JStr ''bob ray|initech'', JStr ''dan orr|hooli'']
              (JArr rs) (JStr ''2024-05-01T10:00:00.000Z''))"
proof -
  have ne: "[contactAnn, contactBob, contactDan] \<noteq> []" by simp
  have dist: "distinct (map connectionKey [contactAnn, contactBob, contactDan])"
    by (simp add: sample_connectionKey)
  have st: "runStartTime sampleEnv (startProgress False freshWorld) freshWorld
      = JStr ''2024-05-01T10:00:00.000Z''"
    by (simp add: runStartTime_def sample_startProgress_fresh emptyProgress_def truthy_def
        sampleEnv_def)
  from one_lookup_per_candidate_row [OF sample_batchSize sample_select_four_fresh ne sample_no_prior resumeLogThrows_False]
  obtain rs ns w' where
    r: "processConnections sampleEnv fourContacts None False freshWorld = Some (Inr (JArr rs, w'))"
    and l: "filter isLookup (trace w') = filter isLookup (trace freshWorld)
         @ map lookupEvent [contactAnn, contactBob, contactDan]"
    and a: "rs = [] @ map resultJson (answers sampleEnv (lookups freshWorld) [contactAnn, contactBob, contactDan])"
    and t: "last (trace w') = ProgressSave ns (JArr rs)
         (runStartTime sampleEnv (startProgress False freshWorld) freshWorld)"
    and d: "distinct (map connectionKey [contactAnn, contactBob, contactDan]) \<longrightarrow>
          ns = processedNames (startProgress False freshWorld)
               @ map (\<lambda>c. JStr (connectionKey c)) [contactAnn, contactBob, contactDan]"
    by blast
  from d dist have ns: "ns = [JStr ''ann lee|acme'', JStr ''bob ray|initech'', JStr ''dan orr|hooli'']"
    by (simp add: sample_startProgress_fresh emptyProgress_def sample_connectionKey)
  from l have l': "filter isLookup (trace w') =
            [Lookup ''Ann Lee'' (Some ''Acme'') None, Lookup ''Bob Ray'' (Some ''Initech'') None,
             Lookup ''Dan Orr'' (Some ''Hooli'') None]"
    by (simp add: sample_fresh sample_lookupEvent)
  from a have a': "rs = [resultJson (answer sampleEnv 0 contactAnn), resultJson (answer sampleEnv 1 contactBob),
                 resultJson (answer sampleEnv 2 contactDan)]"
    by (simp add: sample_fresh numeral_2_eq_2)
  from t have t': "last (trace w') =
            ProgressSave [JStr ''ann lee|acme'', JStr ''bob ray|initech'', JStr ''dan orr|hooli'']
              (JArr rs) (JStr ''2024-05-01T10:00:00.000Z'')"
    by (simp only: ns st)
  show ?thesis
    using sample_batchSize sample_select_four_fresh dist r l' a' t' by auto
qed

text \<open>
  Claim C1 as stated fails: two rows of one run with the same key are both looked up, and
  the last save stores two results for the one key.
\<close>

theorem same_key_looked_up_twice_counterexample:
  "connectionKey contactAnn = ''ann lee|acme''
   \<and> map_option (map_sum id (filter isLookup \<circ> trace \<circ> snd))
        (processConnections sampleEnv [contactAnn, contactAnn] None False freshWorld)
       = Some (Inr [Lookup ''Ann Lee'' (Some ''Acme'') None, Lookup ''Ann Lee'' (Some ''Acme'') None])
   \<and> map_option (map_sum id (last \<circ> trace \<circ> snd))
        (processConnections sampleEnv [contactAnn, contactAnn] None False freshWorld)
       = Some (Inr (ProgressSave [JStr ''ann lee|acme'']
           (JArr [resultJson (answer sampleEnv 0 contactAnn), resultJson (answer sampleEnv 1 contactAnn)])
           (JStr ''2024-05-01T10:00:00.000Z'')))"
proof -
  have sel: "selectCandidates [contactAnn, contactAnn] None False (startProgress False freshWorld)
      = [contactAnn, contactAnn]"
    by (simp add: selectCandidates_def sample_missingEmail)
  have ne: "[contactAnn, contactAnn] \<noteq> []" by simp
  have st: "runStartTime sampleEnv (startProgress False freshWorld) freshWorld
      = JStr ''2024-05-01T10:00:00.000Z''"
    by (simp add: runStartTime_def sample_startProgress_fresh emptyProgress_def truthy_def
        sampleEnv_def)
  note r = processConnections_returns [OF sample_batchSize sel ne sample_no_prior resumeLogThrows_False]
  have l: "filter isLookup (trace (runWorld sampleEnv False (startProgress False freshWorld) []
        [contactAnn, contactAnn] freshWorld))
      = [Lookup ''Ann Lee'' (Some ''Acme'') None, Lookup ''Ann Lee'' (Some ''Acme'') None]"
    by (simp add: runWorld_isLookup sample_fresh sample_lookupEvent)
  have t: "last (trace (runWorld sampleEnv False (startProgress False freshWorld) []
        [contactAnn, contactAnn] freshWorld))
      = ProgressSave [JStr ''ann lee|acme'']
           (JArr [resultJson (answer sampleEnv 0 contactAnn), resultJson (answer sampleEnv 1 contactAnn)])
           (JStr ''2024-05-01T10:00:00.000Z'')"
    by (simp add: runWorld_trace st numeral_2_eq_2 sample_fresh)
       (simp add: sample_startProgress_fresh emptyProgress_def sample_connectionKey setAdd_def
          setInsert_def primitive_def)
  show ?thesis
    by (simp add: r l t sample_connectionKey)
qed

theorem sample_limit_applies_to_remaining_rows_witness:
  "0 < batchSize sampleEnv
   \<and> iterate (results (startProgress True afterFirstSample))
       = Inr [resultJson (answer sampleEnv 0 contactAnn)]
   \<and> processConnections sampleEnv fourContacts (Some 1) False freshWorld
       = Some (Inr (JArr [resultJson (answer sampleEnv 0 contactAnn)], afterFirstSample))
   \<and> selectCandidates fourContacts (Some 1) False (startProgress False freshWorld) = [contactAnn]
   \<and> (\<exists>r w'. processConnections sampleEnv fourContacts (Some 1) True afterFirstSample
                 = Some (Inr (r, w'))
        \<and> filter isLookup (trace w') =
            [Lookup ''Ann Lee'' (Some ''Acme'') None, Lookup ''Bob Ray'' (Some ''Initech'') None])
   \<and> connectionKey ` set [contactAnn] \<inter> connectionKey ` set [contactBob] = {}"
proof -
  have it: "iterate (results (startProgress True afterFirstSample))
       = Inr [resultJson (answer sampleEnv 0 contactAnn)]"
    by (simp add: sample_startProgress_after iterate_def)
  have m: "(0::int) < 1" by simp
  have sel0: "selectCandidates fourContacts (Some 1) False (startProgress False freshWorld) = [contactAnn]"
    by (simp add: selectCandidates_def fourContacts_def sample_missingEmail)
  have rem: "take (nat 1)
       (filter (\<lambda>c. \<not> setHas (processedNames (startProgress True afterFirstSample)) (connectionKey c))
         (filter missingEmail fourContacts)) = [contactBob]"
    by (simp add: fourContacts_def sample_missingEmail sample_startProgress_after setHas_def
        sample_connectionKey)
  note inst = sample_limit_applies_to_remaining_rows [OF sample_batchSize m it sample_log_after, of fourContacts]
  from inst [THEN conjunct1] have run:
    "\<exists>r w'. processConnections sampleEnv fourContacts (Some 1) True afterFirstSample
                 = Some (Inr (r, w'))
        \<and> filter isLookup (trace w') =
            [Lookup ''Ann Lee'' (Some ''Acme'') None, Lookup ''Bob Ray'' (Some ''Initech'') None]"
    by (simp only: rem) (simp add: afterFirstSample_def sample_lookupEvent)
  from inst [THEN conjunct2, rule_format, of 1 False freshWorld
      "JArr [resultJson (answer sampleEnv 0 contactAnn)]"]
    sample_writeOk sample_first_run
  have "connectionKey ` set [contactAnn] \<inter> connectionKey ` set [contactBob] = {}"
    by (simp only: rem sel0) simp
  with run show ?thesis
    using sample_batchSize it sample_first_run sel0 by auto
qed

end
